theory Spec2Isabelle
  imports Main "HOL-Library.Word"
begin

section \<open>Compile-time types and explicit base lists (Inheritance.h, TypeName.h)\<close>

text \<open>
  \<^verbatim>\<open>using FTypeHash = uint64;\<close>  A type hash is the XXH3 hash of a compiler-emitted
  signature string; the hashing itself plays no role below, so a C++ type is modelled by
  what the templates read from it: its name (\<^verbatim>\<open>TTypeName<T>\<close>), its hash
  (\<^verbatim>\<open>TTypeHash<T>\<close>) and its member alias \<^verbatim>\<open>Bases\<close>, which is absent
  (\<open>None\<close>) when \<^verbatim>\<open>CHasBases<T>\<close> is false. Only decayed types are modelled, so
  \<^verbatim>\<open>GetCompileTimeTypeHash<T>\<close> and \<^verbatim>\<open>GetCompileTimeTypeHash<std::decay_t<T>>\<close>
  agree.
\<close>

type_synonym FTypeHash = "64 word"

datatype ctype = CType (TTypeName: string) (TTypeHash: FTypeHash) (Bases: "ctype list option")

definition CHasBases :: "ctype \<Rightarrow> bool" where
  "CHasBases T = (Bases T \<noteq> None)"

text \<open>
  \<^verbatim>\<open>Detail::ForEachExplicitBase_Body<T>\<close> calls the function object on \<open>T\<close> and then,
  when \<open>T\<close> has bases, walks \<^verbatim>\<open>T::Bases\<close> from left to right (the fold expression
  over the index sequence). The model returns the types in the order in which the
  function object is instantiated and called.
\<close>

fun ForEachExplicitBase_Body :: "ctype \<Rightarrow> ctype list" where
  "ForEachExplicitBase_Body (CType n h bs) =
     CType n h bs #
       (case bs of
          None \<Rightarrow> []
        | Some bl \<Rightarrow> concat (map ForEachExplicitBase_Body bl))"

definition Detail_ForEachExplicitBase :: "ctype list \<Rightarrow> ctype list" where
  "Detail_ForEachExplicitBase bl = concat (map ForEachExplicitBase_Body bl)"

text \<open>
  The public \<^verbatim>\<open>ForEachExplicitBase<T>\<close>: the walk over \<^verbatim>\<open>T::Bases\<close> when
  \<^verbatim>\<open>CHasBases<T>\<close> holds. Its second branch is for \<open>T\<close> being a \<^verbatim>\<open>TTypes<...>\<close>
  list itself, which is \<open>Detail_ForEachExplicitBase\<close> on that list; a \<open>ctype\<close> is never
  such a list, so for a type without bases nothing is visited.
\<close>

definition ForEachExplicitBase :: "ctype \<Rightarrow> ctype list" where
  "ForEachExplicitBase T =
     (case Bases T of None \<Rightarrow> [] | Some bl \<Rightarrow> Detail_ForEachExplicitBase bl)"

section \<open>Type identity (TypeInfo.h)\<close>

datatype error =
    ArrayOutOfBounds
  | NullDereference
  | KeyNotFound
  | UnboundTFunction
  | CopyConstructorFailed string
  | NullComponent
  | ComponentAlreadyExists string
  | NoComponentAddedBefore
  | DestinationWrapperIncompatible string
  | ComponentUnavailable string

record FType =
  Name :: string
  Hash :: FTypeHash
  BaseTypeHashes :: "FTypeHash list"
  BaseCount :: nat

definition MaxBaseCount :: nat where
  "MaxBaseCount = 64"

text \<open>\<^verbatim>\<open>constexpr FType() {}\<close>: empty name, hash 0, a zeroed array of 64 slots, no bases.\<close>

definition FType_default :: FType where
  "FType_default =
     \<lparr> Name = [], Hash = 0, BaseTypeHashes = replicate MaxBaseCount 0, BaseCount = 0 \<rparr>"

text \<open>
  The body of the lambda in the \<^verbatim>\<open>FType(TTag<T>&&)\<close> constructor, for one base:
  \<^verbatim>\<open>if (BaseCount >= MaxBaseCount) return;
  BaseTypeHashes[BaseCount] = TTypeHash<Base>; ++BaseCount;\<close>
  A write outside the array is an explicit error of the model.
\<close>

definition FType_record_base :: "FType \<Rightarrow> ctype \<Rightarrow> error + FType" where
  "FType_record_base t B =
     (if BaseCount t \<ge> MaxBaseCount then Inr t
      else if BaseCount t < length (BaseTypeHashes t)
      then Inr (t\<lparr> BaseTypeHashes := (BaseTypeHashes t)[BaseCount t := TTypeHash B],
                   BaseCount := BaseCount t + 1 \<rparr>)
      else Inl ArrayOutOfBounds)"

fun FType_record_bases :: "FType \<Rightarrow> ctype list \<Rightarrow> error + FType" where
  "FType_record_bases t [] = Inr t"
| "FType_record_bases t (B # rest) =
     (case FType_record_base t B of
        Inl e \<Rightarrow> Inl e
      | Inr t' \<Rightarrow> FType_record_bases t' rest)"

definition FType_ctor :: "ctype \<Rightarrow> error + FType" where
  "FType_ctor T =
     (let t = FType_default\<lparr> Name := TTypeName T, Hash := TTypeHash T \<rparr>
      in if CHasBases T then FType_record_bases t (ForEachExplicitBase T) else Inr t)"

text \<open>\<^verbatim>\<open>TTypeOf<T>\<close>, the constant built by the constructor.\<close>

definition TTypeOf :: "ctype \<Rightarrow> FType" where
  "TTypeOf T = (case FType_ctor T of Inr t \<Rightarrow> t | Inl e \<Rightarrow> FType_default)"

text \<open>\<^verbatim>\<open>begin()\<close> .. \<^verbatim>\<open>end()\<close>: the first \<open>BaseCount\<close> slots of the array.\<close>

definition FType_range :: "FType \<Rightarrow> FTypeHash list" where
  "FType_range t = take (BaseCount t) (BaseTypeHashes t)"

text \<open>A range-for loop that returns true at the first element equal to \<open>h\<close>.\<close>

fun any_base_equals :: "FTypeHash list \<Rightarrow> FTypeHash \<Rightarrow> bool" where
  "any_base_equals [] h = False"
| "any_base_equals (base # rest) h = (if base = h then True else any_base_equals rest h)"

definition IsCompatibleWith :: "FType \<Rightarrow> FType \<Rightarrow> bool" where
  "IsCompatibleWith this other =
     (if Hash this = Hash other then True
      else if any_base_equals (FType_range other) (Hash this) then True
      else if any_base_equals (FType_range this) (Hash other) then True
      else False)"

section \<open>Unreal containers used by the code\<close>

text \<open>
  \<^verbatim>\<open>TMap<K, V>\<close> as an association list in insertion order (the order a range-for
  visits when nothing was removed). \<^verbatim>\<open>Add\<close> replaces the value of a key that is
  present and appends otherwise, so keys stay unique. Writing through the reference
  returned by \<^verbatim>\<open>operator[]\<close> is \<open>TMap_Add\<close> on a key that is present.
\<close>

definition TMap_Contains :: "('k \<times> 'v) list \<Rightarrow> 'k \<Rightarrow> bool" where
  "TMap_Contains m k = (k \<in> fst ` set m)"

definition TMap_Find :: "('k \<times> 'v) list \<Rightarrow> 'k \<Rightarrow> 'v option" where
  "TMap_Find m k = map_of m k"

definition TMap_Add :: "('k \<times> 'v) list \<Rightarrow> 'k \<Rightarrow> 'v \<Rightarrow> ('k \<times> 'v) list" where
  "TMap_Add m k v =
     (if TMap_Contains m k then map (\<lambda>e. if fst e = k then (k, v) else e) m
      else m @ [(k, v)])"

definition TMap_Remove :: "('k \<times> 'v) list \<Rightarrow> 'k \<Rightarrow> ('k \<times> 'v) list" where
  "TMap_Remove m k = filter (\<lambda>e. fst e \<noteq> k) m"

text \<open>
  \<^verbatim>\<open>TSet<FType>\<close>: elements are compared with \<^verbatim>\<open>operator ==\<close> of \<open>FType\<close>,
  which compares the hashes only.
\<close>

definition TSet_Contains :: "FType list \<Rightarrow> FType \<Rightarrow> bool" where
  "TSet_Contains s t = (Hash t \<in> Hash ` set s)"

definition TSet_Add :: "FType list \<Rightarrow> FType \<Rightarrow> FType list" where
  "TSet_Add s t =
     (if TSet_Contains s t then map (\<lambda>x. if Hash x = Hash t then t else x) s
      else s @ [t])"

section \<open>The world outside the containers\<close>

text \<open>
  Pointers are addresses, \<open>0\<close> is \<^verbatim>\<open>nullptr\<close>. Payload objects and user callbacks
  live outside the code under study; what the code does to them is recorded as a trace of
  events in call order. \<open>heap_top\<close> is the allocator state behind \<^verbatim>\<open>new\<close>, which
  never returns null. User callbacks are observed only: they are taken not to re-enter
  the container they are called from.
\<close>

type_synonym addr = nat

datatype event =
    Deleted addr
  | CopyConstructed FTypeHash addr addr
  | ComponentAdded addr FTypeHash
  | OnCreatedAt addr addr
  | OnCopiedAt addr addr addr
  | OnMovedAt addr addr

record world =
  heap_top :: addr
  trace :: "event list"

definition emit :: "event \<Rightarrow> world \<Rightarrow> world" where
  "emit e w = w\<lparr> trace := trace w @ [e] \<rparr>"

section \<open>FAny (Any.h, Any.cpp)\<close>

text \<open>
  \<^verbatim>\<open>TAnyTypeFacilities<T>\<close>: two \<^verbatim>\<open>TFunction\<close>s, each possibly unbound. Calling an
  unbound \<^verbatim>\<open>TFunction\<close> is a failed engine check.
\<close>

record TAnyTypeFacilities =
  Facilities_Destruct :: "(addr \<Rightarrow> world \<Rightarrow> world) option"
  Facilities_CopyConstruct :: "(addr \<Rightarrow> world \<Rightarrow> addr \<times> world) option"

text \<open>
  The default member initialisers: \<^verbatim>\<open>delete object\<close>, and \<^verbatim>\<open>new T(object)\<close> when
  \<^verbatim>\<open>CCopyConstructible<T>\<close> holds, \<^verbatim>\<open>nullptr\<close> otherwise.
\<close>

definition TAnyTypeFacilities_default :: "ctype \<Rightarrow> bool \<Rightarrow> TAnyTypeFacilities" where
  "TAnyTypeFacilities_default T CCopyConstructible =
     \<lparr> Facilities_Destruct = Some (\<lambda>object w. emit (Deleted object) w),
       Facilities_CopyConstruct = Some (\<lambda>object w.
         if CCopyConstructible
         then (let p = Suc (heap_top w)
               in (p, emit (CopyConstructed (TTypeHash T) object p) (w\<lparr> heap_top := p \<rparr>)))
         else (0, w)) \<rparr>"

text \<open>
  The two closures of an \<open>FAny\<close> are the lambdas of the template constructor; each is
  determined by the template argument \<open>T\<close> and the captured \<open>facilities\<close>, so a bound
  closure is that pair and \<open>None\<close> is an unbound \<^verbatim>\<open>TFunction\<close>.
\<close>

record FAny =
  Storage :: addr
  MainType :: FType
  Destruct :: "(ctype \<times> TAnyTypeFacilities) option"
  CopyConstruct :: "(ctype \<times> TAnyTypeFacilities) option"
  ValidTypes :: "FType list"

text \<open>\<^verbatim>\<open>FAny() {}\<close> with the default member initialisers.\<close>

definition FAny_empty :: FAny where
  "FAny_empty =
     \<lparr> Storage = 0, MainType = FType_default, Destruct = None, CopyConstruct = None,
       ValidTypes = [] \<rparr>"

definition IsValid :: "FAny \<Rightarrow> bool" where
  "IsValid a = (Storage a \<noteq> 0)"

definition AddAlias :: "FAny \<Rightarrow> FType \<Rightarrow> FAny" where
  "AddAlias a alias =
     (if \<not> TSet_Contains (ValidTypes a) alias
      then a\<lparr> ValidTypes := TSet_Add (ValidTypes a) alias \<rparr>
      else a)"

definition CopyTypeInfo :: "FAny \<Rightarrow> FAny \<Rightarrow> FAny" where
  "CopyTypeInfo self other =
     self\<lparr> MainType := MainType other, ValidTypes := ValidTypes other,
           CopyConstruct := CopyConstruct other, Destruct := Destruct other \<rparr>"

definition Reset :: "FAny \<Rightarrow> FAny" where
  "Reset a =
     a\<lparr> Storage := 0, MainType := FType_default, Destruct := None, CopyConstruct := None,
        ValidTypes := [] \<rparr>"

text \<open>The template constructor \<^verbatim>\<open>FAny(T* newObject, facilities)\<close>.\<close>

definition FAny_ctor :: "ctype \<Rightarrow> addr \<Rightarrow> TAnyTypeFacilities \<Rightarrow> FAny" where
  "FAny_ctor T newObject facilities =
     (let this = \<lparr> Storage = newObject, MainType = TTypeOf T,
                   Destruct = Some (T, facilities), CopyConstruct = Some (T, facilities),
                   ValidTypes = [] \<rparr>;
          this = this\<lparr> ValidTypes := TSet_Add (ValidTypes this) (MainType this) \<rparr>
      in if CHasBases T
         then foldl (\<lambda>a Base. AddAlias a (TTypeOf Base)) this (ForEachExplicitBase T)
         else this)"

text \<open>
  The body of the \<^verbatim>\<open>CopyConstruct\<close> lambda:
  \<^verbatim>\<open>self->Storage = facilities.CopyConstruct(*object);
  checkf(self->Storage, "Copy constructor failed for %s. Is it deleted?", ...);
  CopyTypeInfo(self, &other);\<close>  (\<^verbatim>\<open>checkf\<close> as in builds that keep checks.)
\<close>

definition call_CopyConstruct ::
  "ctype \<times> TAnyTypeFacilities \<Rightarrow> FAny \<Rightarrow> FAny \<Rightarrow> world \<Rightarrow> error + (FAny \<times> world)" where
  "call_CopyConstruct closure self other w =
     (case Facilities_CopyConstruct (snd closure) of
        None \<Rightarrow> Inl UnboundTFunction
      | Some copyConstruct \<Rightarrow>
          (let (p, w') = copyConstruct (Storage other) w;
               self = self\<lparr> Storage := p \<rparr>
           in if Storage self = 0 then Inl (CopyConstructorFailed (TTypeName (fst closure)))
              else Inr (CopyTypeInfo self other, w')))"

text \<open>
  \<^verbatim>\<open>FAny::FAny(FAny const& other) { if (other.IsValid()) other.CopyConstruct(this, other); }\<close>
\<close>

definition FAny_copy_ctor :: "FAny \<Rightarrow> world \<Rightarrow> error + (FAny \<times> world)" where
  "FAny_copy_ctor other w =
     (if IsValid other
      then (case CopyConstruct other of
              None \<Rightarrow> Inl UnboundTFunction
            | Some closure \<Rightarrow> call_CopyConstruct closure FAny_empty other w)
      else Inr (FAny_empty, w))"

text \<open>
  \<^verbatim>\<open>FAny::FAny(FAny&& other)\<close>: the new object, the source afterwards, and the world.
\<close>

definition FAny_move_ctor :: "FAny \<Rightarrow> world \<Rightarrow> FAny \<times> FAny \<times> world" where
  "FAny_move_ctor other w =
     (let this = \<lparr> Storage = Storage other, MainType = MainType other,
                   Destruct = Destruct other, CopyConstruct = CopyConstruct other,
                   ValidTypes = ValidTypes other \<rparr>
      in (this, Reset other, w))"

definition FAny_TryGet :: "FAny \<Rightarrow> ctype \<Rightarrow> addr" where
  "FAny_TryGet a T = (if TSet_Contains (ValidTypes a) (TTypeOf T) then Storage a else 0)"

definition FAny_WithAlias :: "FAny \<Rightarrow> ctype \<Rightarrow> FAny" where
  "FAny_WithAlias self T =
     (let self = AddAlias self (TTypeOf T)
      in if CHasBases T
         then foldl (\<lambda>a Base. AddAlias a (TTypeOf Base)) self (ForEachExplicitBase T)
         else self)"

section \<open>IComposable (Composition.h, Composition.cpp)\<close>

text \<open>
  What the concepts of Composition.h read from a component type \<open>T\<close> and the composable
  type \<open>Self\<close> it is added to: whether \<open>T\<close> derives from \<^verbatim>\<open>IComponent\<close>, and which of
  the three callbacks are well-formed calls for that parent type.
\<close>

record component_traits =
  derives_IComponent :: bool
  has_OnCreatedAt :: bool
  has_OnCopiedAt :: bool
  has_OnMovedAt :: bool

definition CCompatibleExplicitComponent :: "component_traits \<Rightarrow> bool" where
  "CCompatibleExplicitComponent tr = (derives_IComponent tr \<and> has_OnCreatedAt tr)"

definition CCopyAwareComponent :: "component_traits \<Rightarrow> bool" where
  "CCopyAwareComponent tr = (CCompatibleExplicitComponent tr \<and> has_OnCopiedAt tr)"

definition CMoveAwareComponent :: "component_traits \<Rightarrow> bool" where
  "CMoveAwareComponent tr = (CCompatibleExplicitComponent tr \<and> has_OnMovedAt tr)"

text \<open>
  \<^verbatim>\<open>FComponentLogistics\<close>: the \<^verbatim>\<open>Copy\<close> and \<^verbatim>\<open>Move\<close> lambdas of
  \<^verbatim>\<open>AddComponent\<close>. Both capture \<^verbatim>\<open>unboxedComponent\<close> by value and are
  instantiated for \<open>MainType\<close> and \<open>Self\<close>.
\<close>

record FComponentLogistics =
  Logistics_MainType :: ctype
  Logistics_traits :: component_traits
  unboxedComponent :: addr

record IComposable =
  LastAddedComponentHash :: FTypeHash
  Components :: "(FTypeHash \<times> FAny) list"
  ComponentLogistics :: "(FTypeHash \<times> FComponentLogistics) list"
  ComponentAliases :: "(FTypeHash \<times> FTypeHash list) list"
  OnComponentAdded :: bool

text \<open>\<^verbatim>\<open>IComposable() = default\<close>; \<open>OnComponentAdded\<close> says whether that hook is bound.\<close>

definition IComposable_empty :: IComposable where
  "IComposable_empty =
     \<lparr> LastAddedComponentHash = 0, Components = [], ComponentLogistics = [],
       ComponentAliases = [], OnComponentAdded = False \<rparr>"

definition HasExactComponent :: "IComposable \<Rightarrow> FTypeHash \<Rightarrow> bool" where
  "HasExactComponent c typeHash = TMap_Contains (Components c) typeHash"

definition HasComponentAliasUnchecked :: "IComposable \<Rightarrow> FTypeHash \<Rightarrow> bool" where
  "HasComponentAliasUnchecked c typeHash = TMap_Contains (ComponentAliases c) typeHash"

text \<open>
  \<open>HasComponentAlias\<close> is \<^verbatim>\<open>const\<close> but prunes the \<^verbatim>\<open>mutable\<close> alias table, so it
  returns the composable as well. \<^verbatim>\<open>RemoveAll\<close> keeps, in order, the entries that
  are still keys of \<open>Components\<close>. The lookup \<^verbatim>\<open>ComponentAliases[typeHash]\<close> happens
  under the \<open>Contains\<close> test; the \<open>None\<close> branch is there for totality only.
\<close>

definition HasComponentAlias :: "IComposable \<Rightarrow> FTypeHash \<Rightarrow> bool \<times> IComposable" where
  "HasComponentAlias c typeHash =
     (if HasComponentAliasUnchecked c typeHash
      then (case TMap_Find (ComponentAliases c) typeHash of
              None \<Rightarrow> (False, c)
            | Some components \<Rightarrow>
                (let components = filter (\<lambda>i. TMap_Contains (Components c) i) components;
                     c = c\<lparr> ComponentAliases :=
                              TMap_Add (ComponentAliases c) typeHash components \<rparr>
                 in if components = []
                    then (False,
                          c\<lparr> ComponentAliases := TMap_Remove (ComponentAliases c) typeHash \<rparr>)
                    else (True, c)))
      else (False, c))"

text \<open>
  \<^verbatim>\<open>TArray::Add\<close> appends without looking for duplicates. As above, the \<open>None\<close>
  branch under the \<open>Contains\<close> test is never taken.
\<close>

definition AddComponentAlias :: "IComposable \<Rightarrow> FTypeHash \<Rightarrow> FTypeHash \<Rightarrow> IComposable" where
  "AddComponentAlias c mainType validAs =
     (if HasComponentAliasUnchecked c validAs
      then (case TMap_Find (ComponentAliases c) validAs of
              None \<Rightarrow> c
            | Some components \<Rightarrow>
                c\<lparr> ComponentAliases :=
                     TMap_Add (ComponentAliases c) validAs (components @ [mainType]) \<rparr>)
      else c\<lparr> ComponentAliases := TMap_Add (ComponentAliases c) validAs [mainType] \<rparr>)"

text \<open>
  The two lambdas of a logistics entry. \<open>target\<close> is the address of the composable the
  callback is told about; the callbacks themselves are recorded as events
  \<open>OnCopiedAt receiver parent from\<close> and \<open>OnMovedAt receiver parent\<close>.
\<close>

definition Logistics_Copy ::
  "FComponentLogistics \<Rightarrow> addr \<Rightarrow> FAny \<Rightarrow> world \<Rightarrow> error + world" where
  "Logistics_Copy lg target targetBoxedComponent w =
     (if CCopyAwareComponent (Logistics_traits lg)
      then (let targetComponent = FAny_TryGet targetBoxedComponent (Logistics_MainType lg)
            in if targetComponent = 0
               then Inl (DestinationWrapperIncompatible (TTypeName (Logistics_MainType lg)))
               else Inr (emit (OnCopiedAt targetComponent target (unboxedComponent lg)) w))
      else Inr w)"

definition Logistics_Move :: "FComponentLogistics \<Rightarrow> addr \<Rightarrow> world \<Rightarrow> world" where
  "Logistics_Move lg target w =
     (if CMoveAwareComponent (Logistics_traits lg)
      then emit (OnMovedAt (unboxedComponent lg) target) w
      else w)"

text \<open>
  \<^verbatim>\<open>for (auto const& [key, logistics] : ComponentLogistics)
    logistics.Copy(this, other.Components[key]);\<close>
  \<open>this\<close> is the address of the composable under construction, \<open>other\<close> the composable
  the constructor copies from. \<^verbatim>\<open>operator[]\<close> on a missing key is a failed check.
\<close>

fun NotifyCopyComponents_loop ::
  "(FTypeHash \<times> FComponentLogistics) list \<Rightarrow> addr \<Rightarrow> IComposable \<Rightarrow> world \<Rightarrow> error + world" where
  "NotifyCopyComponents_loop [] this other w = Inr w"
| "NotifyCopyComponents_loop ((key, logistics) # rest) this other w =
     (case TMap_Find (Components other) key of
        None \<Rightarrow> Inl KeyNotFound
      | Some boxed \<Rightarrow>
          (case Logistics_Copy logistics this boxed w of
             Inl e \<Rightarrow> Inl e
           | Inr w' \<Rightarrow> NotifyCopyComponents_loop rest this other w'))"

definition NotifyCopyComponents ::
  "addr \<Rightarrow> IComposable \<Rightarrow> IComposable \<Rightarrow> world \<Rightarrow> error + world" where
  "NotifyCopyComponents this self other w =
     NotifyCopyComponents_loop (ComponentLogistics self) this other w"

definition ResetComponents :: "IComposable \<Rightarrow> IComposable" where
  "ResetComponents c =
     c\<lparr> Components := [], ComponentLogistics := [], ComponentAliases := [],
        LastAddedComponentHash := 0 \<rparr>"

text \<open>
  \<^verbatim>\<open>if (this == &other) return;
  for (auto const& [key, logistics] : ComponentLogistics) logistics.Move(this);
  other.ResetComponents();\<close>
  Returns the source afterwards and the world.
\<close>

definition NotifyMoveComponents ::
  "addr \<Rightarrow> IComposable \<Rightarrow> addr \<Rightarrow> IComposable \<Rightarrow> world \<Rightarrow> IComposable \<times> world" where
  "NotifyMoveComponents this self other_addr other w =
     (if this = other_addr then (other, w)
      else (ResetComponents other,
            foldl (\<lambda>w e. Logistics_Move (snd e) this w) w (ComponentLogistics self)))"

text \<open>The copy constructor of \<open>TMap<FTypeHash, FAny>\<close>: every value by \<open>FAny\<close>'s own.\<close>

fun Components_copy ::
  "(FTypeHash \<times> FAny) list \<Rightarrow> world \<Rightarrow> error + ((FTypeHash \<times> FAny) list \<times> world)" where
  "Components_copy [] w = Inr ([], w)"
| "Components_copy ((key, boxed) # rest) w =
     (case FAny_copy_ctor boxed w of
        Inl e \<Rightarrow> Inl e
      | Inr (boxed', w') \<Rightarrow>
          (case Components_copy rest w' of
             Inl e \<Rightarrow> Inl e
           | Inr (rest', w'') \<Rightarrow> Inr ((key, boxed') # rest', w'')))"

text \<open>
  \<^verbatim>\<open>IComposable(const IComposable& other)\<close>, constructing the composable at address
  \<open>this\<close>: the member initialisers copy the four members and the hook, then
  \<^verbatim>\<open>NotifyCopyComponents(other)\<close> runs.
\<close>

definition IComposable_copy_ctor ::
  "addr \<Rightarrow> IComposable \<Rightarrow> world \<Rightarrow> error + (IComposable \<times> world)" where
  "IComposable_copy_ctor this other w =
     (case Components_copy (Components other) w of
        Inl e \<Rightarrow> Inl e
      | Inr (components, w') \<Rightarrow>
          (let self = \<lparr> LastAddedComponentHash = LastAddedComponentHash other,
                        Components = components,
                        ComponentLogistics = ComponentLogistics other,
                        ComponentAliases = ComponentAliases other,
                        OnComponentAdded = OnComponentAdded other \<rparr>
           in (case NotifyCopyComponents this self other w' of
                 Inl e \<Rightarrow> Inl e
               | Inr w'' \<Rightarrow> Inr (self, w''))))"

text \<open>
  \<^verbatim>\<open>IComposable(IComposable&& other)\<close>: \<^verbatim>\<open>MoveTemp\<close> of a \<open>TMap\<close> leaves the source
  map empty and of a \<^verbatim>\<open>TFunction\<close> leaves it unbound; \<open>LastAddedComponentHash\<close> is
  copied. Returns the new composable, the source afterwards, and the world.
\<close>

definition IComposable_move_ctor ::
  "addr \<Rightarrow> addr \<Rightarrow> IComposable \<Rightarrow> world \<Rightarrow> IComposable \<times> IComposable \<times> world" where
  "IComposable_move_ctor this other_addr other w =
     (let self = \<lparr> LastAddedComponentHash = LastAddedComponentHash other,
                   Components = Components other,
                   ComponentLogistics = ComponentLogistics other,
                   ComponentAliases = ComponentAliases other,
                   OnComponentAdded = OnComponentAdded other \<rparr>;
          other = other\<lparr> Components := [], ComponentLogistics := [],
                         ComponentAliases := [], OnComponentAdded := False \<rparr>;
          (other, w) = NotifyMoveComponents this self other_addr other w
      in (self, other, w))"

text \<open>
  \<^verbatim>\<open>AddComponent<MainType, Self>(newComponent, facilities)\<close> on the composable at
  address \<open>this\<close>, with \<^verbatim>\<open>ASSERT_CRASH\<close> as in every build that keeps it. The
  temporary \<open>FAny\<close> is moved into the map, which transfers its fields unchanged.
\<close>

definition AddComponent ::
  "addr \<Rightarrow> ctype \<Rightarrow> component_traits \<Rightarrow> addr \<Rightarrow> TAnyTypeFacilities \<Rightarrow> IComposable \<Rightarrow> world
     \<Rightarrow> error + (IComposable \<times> world)" where
  "AddComponent this T tr newComponent facilities self w =
     (if newComponent = 0 then Inl NullComponent
      else if HasExactComponent self (TTypeHash T)
      then Inl (ComponentAlreadyExists (TTypeName T))
      else
        (let boxedComponent = FAny_ctor T newComponent facilities;
             self = self\<lparr> Components :=
                            TMap_Add (Components self) (TTypeHash T) boxedComponent \<rparr>;
             unboxed = FAny_TryGet boxedComponent T;
             self = self\<lparr> LastAddedComponentHash := TTypeHash T \<rparr>;
             self = (if CHasBases T
                     then foldl (\<lambda>c Base. AddComponentAlias c (TTypeHash T) (TTypeHash Base))
                            self (ForEachExplicitBase T)
                     else self);
             w = (if OnComponentAdded self then emit (ComponentAdded this (TTypeHash T)) w
                  else w)
         in if CCompatibleExplicitComponent tr
            then (if unboxed = 0 then Inl NullDereference
                  else
                    (let w = emit (OnCreatedAt unboxed this) w
                     in if CCopyAwareComponent tr \<or> CMoveAwareComponent tr
                        then Inr (self\<lparr> ComponentLogistics :=
                                          TMap_Add (ComponentLogistics self) (TTypeHash T)
                                            \<lparr> Logistics_MainType = T, Logistics_traits = tr,
                                              unboxedComponent = unboxed \<rparr> \<rparr>, w)
                        else Inr (self, w)))
            else Inr (self, w)))"

text \<open>
  \<^verbatim>\<open>AddComponentAlias<ValidAs>(mainType)\<close>: \<^verbatim>\<open>Components[mainType].WithAlias<ValidAs>()\<close>,
  then the alias table entries for \<open>ValidAs\<close> and its explicit bases.
\<close>

definition AddComponentAlias_as :: "IComposable \<Rightarrow> ctype \<Rightarrow> FTypeHash \<Rightarrow> error + IComposable" where
  "AddComponentAlias_as c ValidAs mainType =
     (case TMap_Find (Components c) mainType of
        None \<Rightarrow> Inl KeyNotFound
      | Some boxed \<Rightarrow>
          (let c = c\<lparr> Components :=
                        TMap_Add (Components c) mainType (FAny_WithAlias boxed ValidAs) \<rparr>;
               c = AddComponentAlias c mainType (TTypeHash ValidAs)
           in if CHasBases ValidAs
              then Inr (foldl (\<lambda>c Base. AddComponentAlias c mainType (TTypeHash Base))
                          c (ForEachExplicitBase ValidAs))
              else Inr c))"

fun AddAlias_fold :: "IComposable \<Rightarrow> ctype list \<Rightarrow> error + IComposable" where
  "AddAlias_fold c [] = Inr c"
| "AddAlias_fold c (ValidAs # rest) =
     (case AddComponentAlias_as c ValidAs (LastAddedComponentHash c) of
        Inl e \<Rightarrow> Inl e
      | Inr c' \<Rightarrow> AddAlias_fold c' rest)"

text \<open>\<^verbatim>\<open>AddAlias<ValidAs...>()\<close>, which \<^verbatim>\<open>WithAlias\<close> and \<^verbatim>\<open>With(TTypes<...>)\<close> call.\<close>

definition IComposable_AddAlias :: "IComposable \<Rightarrow> ctype list \<Rightarrow> error + IComposable" where
  "IComposable_AddAlias c ValidAs =
     (if \<not> (LastAddedComponentHash c \<noteq> 0
             \<and> TMap_Contains (Components c) (LastAddedComponentHash c))
      then Inl NoComponentAddedBefore
      else AddAlias_fold c ValidAs)"

text \<open>
  The lookups return ranges of \<^verbatim>\<open>FAny*\<close> pointing into \<open>Components\<close>; a pointer is
  modelled by what it points to, \<open>None\<close> being the null pointer \<^verbatim>\<open>Find\<close> returns for
  a missing key. The ranges are lazy views; nothing changes the maps while they are read,
  so they are modelled by the lists of their elements. In \<open>GetAliasedComponents\<close> the
  alias list is read after \<open>HasComponentAlias\<close> has answered true, when the key is
  present.
\<close>

definition GetExactComponent :: "IComposable \<Rightarrow> FTypeHash \<Rightarrow> FAny option list" where
  "GetExactComponent c typeHash =
     (if HasExactComponent c typeHash then [TMap_Find (Components c) typeHash] else [])"

definition GetAliasedComponents ::
  "IComposable \<Rightarrow> FTypeHash \<Rightarrow> FAny option list \<times> IComposable" where
  "GetAliasedComponents c typeHash =
     (let (has, c) = HasComponentAlias c typeHash
      in if has
         then (case TMap_Find (ComponentAliases c) typeHash of
                 None \<Rightarrow> ([], c)
               | Some components \<Rightarrow> (map (\<lambda>i. TMap_Find (Components c) i) components, c))
         else ([], c))"

definition GetComponentsDynamic ::
  "IComposable \<Rightarrow> FTypeHash \<Rightarrow> FAny option list \<times> IComposable" where
  "GetComponentsDynamic c typeHash =
     (let exact = GetExactComponent c typeHash;
          (aliased, c) = GetAliasedComponents c typeHash
      in (exact @ aliased, c))"

text \<open>
  \<^verbatim>\<open>rv::transform([](FAny* component) { return component->TryGet<T>(); })\<close>:
  dereferencing a null \<^verbatim>\<open>FAny*\<close> is an error of the model.
\<close>

fun transform_TryGet :: "ctype \<Rightarrow> FAny option list \<Rightarrow> error + addr list" where
  "transform_TryGet T [] = Inr []"
| "transform_TryGet T (None # rest) = Inl NullDereference"
| "transform_TryGet T (Some component # rest) =
     (case transform_TryGet T rest of
        Inl e \<Rightarrow> Inl e
      | Inr ps \<Rightarrow> Inr (FAny_TryGet component T # ps))"

text \<open>\<^verbatim>\<open>FilterValid()\<close> on raw pointers keeps the non-null ones.\<close>

definition FilterValid :: "addr list \<Rightarrow> addr list" where
  "FilterValid ps = filter (\<lambda>p. p \<noteq> 0) ps"

definition GetComponents :: "ctype \<Rightarrow> IComposable \<Rightarrow> (error + addr list) \<times> IComposable" where
  "GetComponents T c =
     (let (components, c) = GetComponentsDynamic c (TTypeHash T)
      in (case transform_TryGet T components of
            Inl e \<Rightarrow> (Inl e, c)
          | Inr ps \<Rightarrow> (Inr (FilterValid ps), c)))"

text \<open>\<^verbatim>\<open>First(range, def)\<close>: the default for an empty range, else \<^verbatim>\<open>*range.begin()\<close>.\<close>

definition First :: "'a list \<Rightarrow> 'a \<Rightarrow> 'a" where
  "First rng def = (case rng of [] \<Rightarrow> def | x # _ \<Rightarrow> x)"

definition IComposable_TryGet :: "ctype \<Rightarrow> IComposable \<Rightarrow> (error + addr) \<times> IComposable" where
  "IComposable_TryGet T c =
     (let (r, c) = GetComponents T c
      in (case r of Inl e \<Rightarrow> (Inl e, c) | Inr ps \<Rightarrow> (Inr (First ps 0), c)))"

section \<open>Composables that the interface can build\<close>

text \<open>
  Every stored component is a valid \<open>FAny\<close> that can be retrieved under its key.
\<close>

definition components_valid :: "IComposable \<Rightarrow> bool" where
  "components_valid c =
     list_all (\<lambda>e. Storage (snd e) \<noteq> 0 \<and> fst e \<in> Hash ` set (ValidTypes (snd e))) (Components c)"

text \<open>
  The composables a program can hold: default-constructed (with or without a bound
  \<open>OnComponentAdded\<close>), and what the public operations return from such composables.
\<close>

inductive constructible :: "IComposable \<Rightarrow> bool" where
  default_ctor: "constructible (IComposable_empty\<lparr> OnComponentAdded := hook \<rparr>)"
| add_component:
    "constructible c \<Longrightarrow> AddComponent this T tr p fac c w = Inr (c', w') \<Longrightarrow> constructible c'"
| add_alias:
    "constructible c \<Longrightarrow> IComposable_AddAlias c ValidAs = Inr c' \<Longrightarrow> constructible c'"
| copy_ctor:
    "constructible c \<Longrightarrow> IComposable_copy_ctor this c w = Inr (c', w') \<Longrightarrow> constructible c'"
| move_ctor_new:
    "constructible c \<Longrightarrow> IComposable_move_ctor this other_addr c w = (c', c'', w')
       \<Longrightarrow> constructible c'"
| move_ctor_source:
    "constructible c \<Longrightarrow> IComposable_move_ctor this other_addr c w = (c', c'', w')
       \<Longrightarrow> constructible c''"
| lookup:
    "constructible c \<Longrightarrow> GetComponents T c = (r, c') \<Longrightarrow> constructible c'"

section \<open>Example types and values\<close>

text \<open>
  Types of the test suite (Any.Spec.cpp, Composition.Spec.cpp, TestHelpers.h) and one
  component type with all three callbacks. The hash values stand for the XXH3 values of a
  build; only their being pairwise distinct matters. Objects live at addresses 1, 2, 3,
  composables at 100, 200, 300.
\<close>

definition IBase :: "nat \<Rightarrow> ctype" where
  "IBase i = CType ''IBase'' (of_nat i) None"

definition FWide :: ctype where
  "FWide = CType ''FWide'' 0x0D00 (Some (map IBase [1..<66]))"

definition FVector :: ctype where
  "FVector = CType ''FVector'' 0x0F01 None"

definition FAnyTestBase :: ctype where
  "FAnyTestBase = CType ''Mcro::Test::FAnyTestBase'' 0x0A01 None"

definition FAnyTest :: ctype where
  "FAnyTest = CType ''Mcro::Test::FAnyTest'' 0x0A02 None"

definition FCopyForbidden :: ctype where
  "FCopyForbidden = CType ''FCopyForbidden'' 0x0A03 None"

definition world0 :: world where
  "world0 = \<lparr> heap_top = 1, trace = [] \<rparr>"

definition payload_FAnyTest :: FAny where
  "payload_FAnyTest =
     foldl FAny_WithAlias (FAny_ctor FAnyTest 1 (TAnyTypeFacilities_default FAnyTest True))
       [FAnyTestBase]"

definition payload_FCopyForbidden :: FAny where
  "payload_FCopyForbidden =
     FAny_ctor FCopyForbidden 1 (TAnyTypeFacilities_default FCopyForbidden False)"

definition unbound_facilities :: TAnyTypeFacilities where
  "unbound_facilities = \<lparr> Facilities_Destruct = None, Facilities_CopyConstruct = None \<rparr>"

definition payload_unbound_facility :: FAny where
  "payload_unbound_facility = FAny_ctor FAnyTest 1 unbound_facilities"

definition FAwareComponent :: ctype where
  "FAwareComponent = CType ''FAwareComponent'' 0x0C01 None"

definition aware_traits :: component_traits where
  "aware_traits = \<lparr> derives_IComponent = True, has_OnCreatedAt = True,
                    has_OnCopiedAt = True, has_OnMovedAt = True \<rparr>"

definition added_A :: "error + (IComposable \<times> world)" where
  "added_A = AddComponent 100 FAwareComponent aware_traits 1
               (TAnyTypeFacilities_default FAwareComponent True) IComposable_empty world0"

definition copied_B :: "error + (IComposable \<times> world)" where
  "copied_B = (case added_A of Inl e \<Rightarrow> Inl e | Inr (A, wA) \<Rightarrow> IComposable_copy_ctor 200 A wA)"

definition moved_C :: "error + (IComposable \<times> IComposable \<times> world)" where
  "moved_C = (case copied_B of Inl e \<Rightarrow> Inl e
              | Inr (B, wB) \<Rightarrow> Inr (IComposable_move_ctor 300 200 B wB))"

definition FComponentBase :: ctype where
  "FComponentBase = CType ''Mcro::Test::FComponentBase'' 0x0B01 None"

definition FComponentA :: ctype where
  "FComponentA = CType ''Mcro::Test::FComponentA'' 0x0B02 None"

definition IComponentInterface :: ctype where
  "IComponentInterface = CType ''Mcro::Test::IComponentInterface'' 0x0B03 None"

definition plain_traits :: component_traits where
  "plain_traits = \<lparr> derives_IComponent = False, has_OnCreatedAt = False,
                    has_OnCopiedAt = False, has_OnMovedAt = False \<rparr>"

definition the_composable :: "error + (IComposable \<times> world) \<Rightarrow> IComposable" where
  "the_composable r = (case r of Inr (c, w) \<Rightarrow> c | Inl e \<Rightarrow> IComposable_empty)"

definition the_world :: "error + (IComposable \<times> world) \<Rightarrow> world" where
  "the_world r = (case r of Inr (c, w) \<Rightarrow> w | Inl e \<Rightarrow> world0)"

definition base_added :: "error + (IComposable \<times> world)" where
  "base_added = AddComponent 100 FComponentBase plain_traits 1
                  (TAnyTypeFacilities_default FComponentBase True) IComposable_empty world0"

definition both_added :: "error + (IComposable \<times> world)" where
  "both_added = AddComponent 100 FComponentA plain_traits 2
                  (TAnyTypeFacilities_default FComponentA True)
                  (the_composable base_added) (the_world base_added)"

definition aliased :: "error + IComposable" where
  "aliased = IComposable_AddAlias (the_composable both_added) [FComponentBase, IComponentInterface]"

definition composable_aliased :: IComposable where
  "composable_aliased = (case aliased of Inr c \<Rightarrow> c | Inl e \<Rightarrow> IComposable_empty)"

definition FSimpleComponent :: ctype where
  "FSimpleComponent = CType ''Mcro::Test::FSimpleComponent'' 0x0B04 None"

definition stale_alias :: IComposable where
  "stale_alias = IComposable_empty\<lparr> ComponentAliases := [(TTypeHash IComponentInterface,
                                                        [TTypeHash FComponentA])] \<rparr>"

section \<open>Type identity: compatibility and the base-hash capacity\<close>

lemma any_base_equals_iff: "any_base_equals bs h \<longleftrightarrow> h \<in> set bs"
  by (induction bs) auto

text \<open>
  C8. \<open>a.IsCompatibleWith(b)\<close> is true exactly when the hashes are equal, or the base
  hashes of \<open>b\<close> contain the hash of \<open>a\<close>, or the base hashes of \<open>a\<close> contain the
  hash of \<open>b\<close>; so the relation is symmetric and reflexive. The base hashes of a type
  are the range \<^verbatim>\<open>begin()\<close> .. \<^verbatim>\<open>end()\<close>.
\<close>

theorem IsCompatibleWith_iff:
  "(IsCompatibleWith a b \<longleftrightarrow>
      Hash a = Hash b \<or> Hash a \<in> set (FType_range b) \<or> Hash b \<in> set (FType_range a))
   \<and> IsCompatibleWith a b = IsCompatibleWith b a
   \<and> IsCompatibleWith a a"
  by (auto simp: IsCompatibleWith_def any_base_equals_iff)

lemma take_take_append: "take n (take n xs @ ys) = take n (xs @ ys)"
proof (induction xs arbitrary: n)
  case Nil
  then show ?case by simp
next
  case (Cons x xs)
  then show ?case by (cases n) simp_all
qed

lemma FType_record_base_Inr:
  assumes "length (BaseTypeHashes t) = MaxBaseCount" "BaseCount t \<le> MaxBaseCount"
  shows "\<exists>t'. FType_record_base t B = Inr t'
           \<and> length (BaseTypeHashes t') = MaxBaseCount
           \<and> BaseCount t' \<le> MaxBaseCount
           \<and> Name t' = Name t \<and> Hash t' = Hash t
           \<and> FType_range t' = take MaxBaseCount (FType_range t @ [TTypeHash B])"
proof (cases "BaseCount t \<ge> MaxBaseCount")
  case True
  with assms have "BaseCount t = MaxBaseCount" by simp
  with assms True show ?thesis
    by (simp add: FType_record_base_def FType_range_def)
next
  case False
  with assms show ?thesis
    by (simp add: FType_record_base_def FType_range_def take_Suc_conv_app_nth)
qed

lemma FType_record_bases_Inr:
  assumes "length (BaseTypeHashes t) = MaxBaseCount" "BaseCount t \<le> MaxBaseCount"
  shows "\<exists>t'. FType_record_bases t Bs = Inr t'
           \<and> length (BaseTypeHashes t') = MaxBaseCount
           \<and> BaseCount t' \<le> MaxBaseCount
           \<and> Name t' = Name t \<and> Hash t' = Hash t
           \<and> FType_range t' = take MaxBaseCount (FType_range t @ map TTypeHash Bs)"
  using assms
proof (induction Bs arbitrary: t)
  case Nil
  then show ?case by (simp add: FType_range_def)
next
  case (Cons B Bs)
  from FType_record_base_Inr[OF Cons.prems, of B] obtain t1 where
    t1: "FType_record_base t B = Inr t1" "length (BaseTypeHashes t1) = MaxBaseCount"
        "BaseCount t1 \<le> MaxBaseCount" "Name t1 = Name t" "Hash t1 = Hash t"
        "FType_range t1 = take MaxBaseCount (FType_range t @ [TTypeHash B])"
    by blast
  from Cons.IH[OF t1(2,3)] obtain t2 where
    t2: "FType_record_bases t1 Bs = Inr t2" "length (BaseTypeHashes t2) = MaxBaseCount"
        "BaseCount t2 \<le> MaxBaseCount" "Name t2 = Name t1" "Hash t2 = Hash t1"
        "FType_range t2 = take MaxBaseCount (FType_range t1 @ map TTypeHash Bs)"
    by blast
  have "take MaxBaseCount (take MaxBaseCount (FType_range t @ [TTypeHash B]) @ map TTypeHash Bs)
        = take MaxBaseCount (FType_range t @ TTypeHash B # map TTypeHash Bs)"
    using take_take_append[of MaxBaseCount "FType_range t @ [TTypeHash B]" "map TTypeHash Bs"]
    by simp
  with t1 t2 show ?case by simp
qed

lemma FType_ctor_Inr:
  "\<exists>t. FType_ctor T = Inr t
       \<and> length (BaseTypeHashes t) = MaxBaseCount
       \<and> BaseCount t \<le> MaxBaseCount
       \<and> Name t = TTypeName T \<and> Hash t = TTypeHash T
       \<and> FType_range t = take MaxBaseCount (map TTypeHash (ForEachExplicitBase T))"
proof (cases "CHasBases T")
  case True
  let ?t = "FType_default\<lparr> Name := TTypeName T, Hash := TTypeHash T \<rparr>"
  have "length (BaseTypeHashes ?t) = MaxBaseCount" "BaseCount ?t \<le> MaxBaseCount"
    by (simp_all add: FType_default_def)
  from FType_record_bases_Inr[OF this, of "ForEachExplicitBase T"] True
  show ?thesis by (simp add: FType_ctor_def FType_range_def FType_default_def)
next
  case False
  then have "ForEachExplicitBase T = []"
    by (simp add: CHasBases_def ForEachExplicitBase_def)
  with False show ?thesis
    by (simp add: FType_ctor_def FType_range_def FType_default_def)
qed

lemma Hash_TTypeOf [simp]: "Hash (TTypeOf T) = TTypeHash T"
  using FType_ctor_Inr[of T] by (auto simp: TTypeOf_def)

lemma Name_TTypeOf [simp]: "Name (TTypeOf T) = TTypeName T"
  using FType_ctor_Inr[of T] by (auto simp: TTypeOf_def)

text \<open>
  C9. The constructor never fails with an out-of-bounds write and records exactly the first
  64 hashes of the flattened explicit base list, in order; what lies beyond the 64th is
  dropped without an error, and \<open>BaseCount\<close> never exceeds 64.
\<close>

theorem FType_ctor_at_most_MaxBaseCount:
  "\<exists>t. FType_ctor T = Inr t
       \<and> BaseCount t = min 64 (length (ForEachExplicitBase T))
       \<and> length (BaseTypeHashes t) = 64
       \<and> FType_range t = take 64 (map TTypeHash (ForEachExplicitBase T))
       \<and> TTypeOf T = t"
proof -
  from FType_ctor_Inr[of T] obtain t where
    t: "FType_ctor T = Inr t" "length (BaseTypeHashes t) = MaxBaseCount"
       "BaseCount t \<le> MaxBaseCount"
       "FType_range t = take MaxBaseCount (map TTypeHash (ForEachExplicitBase T))"
    by blast
  have "length (FType_range t) = BaseCount t"
    using t(2,3) by (simp add: FType_range_def)
  with t(4) have "BaseCount t = min MaxBaseCount (length (ForEachExplicitBase T))"
    by (simp add: min.commute)
  with t show ?thesis by (simp add: MaxBaseCount_def TTypeOf_def)
qed

text \<open>A type that lists 65 bases: the 65th is dropped, the first 64 are kept in order.\<close>

lemma ForEachExplicitBase_FWide: "ForEachExplicitBase FWide = map IBase [1..<66]"
proof -
  have "concat (map ForEachExplicitBase_Body (map IBase xs)) = map IBase xs" for xs
    by (induction xs) (simp_all add: IBase_def)
  then show ?thesis
    by (simp add: ForEachExplicitBase_def Detail_ForEachExplicitBase_def FWide_def)
qed

theorem FType_ctor_at_most_MaxBaseCount_witness:
  "length (ForEachExplicitBase FWide) = 65
   \<and> FType_ctor FWide = Inr (TTypeOf FWide)
   \<and> BaseCount (TTypeOf FWide) = 64
   \<and> FType_range (TTypeOf FWide) = map of_nat [1..<65]"
proof -
  have "TTypeHash (IBase i) = of_nat i" for i
    by (simp add: IBase_def)
  then have "take 64 (map TTypeHash (ForEachExplicitBase FWide)) = map of_nat [1..<65]"
    by (simp add: ForEachExplicitBase_FWide take_map)
  with FType_ctor_at_most_MaxBaseCount[of FWide] show ?thesis
    by (auto simp: ForEachExplicitBase_FWide)
qed

section \<open>FAny: lookup, copy and move\<close>

lemma TSet_replace_hashes:
  "map Hash (map (\<lambda>x. if Hash x = Hash t then t else x) s) = map Hash s"
  by (induction s) simp_all

lemma TSet_Contains_Add:
  "TSet_Contains (TSet_Add s t) u \<longleftrightarrow> TSet_Contains s u \<or> Hash u = Hash t"
proof (cases "TSet_Contains s t")
  case True
  have "Hash ` set (map (\<lambda>x. if Hash x = Hash t then t else x) s) = Hash ` set s"
    using arg_cong[OF TSet_replace_hashes[of t s], of set] by (simp only: set_map)
  with True show ?thesis
    unfolding TSet_Contains_def TSet_Add_def by auto
next
  case False
  then show ?thesis
    by (auto simp: TSet_Contains_def TSet_Add_def)
qed

lemma AddAlias_Storage [simp]: "Storage (AddAlias a t) = Storage a"
  by (simp add: AddAlias_def)

lemma AddAlias_closures [simp]:
  "CopyConstruct (AddAlias a t) = CopyConstruct a" "Destruct (AddAlias a t) = Destruct a"
  "MainType (AddAlias a t) = MainType a"
  by (simp_all add: AddAlias_def)

lemma AddAlias_Contains:
  "TSet_Contains (ValidTypes (AddAlias a t)) u \<longleftrightarrow> TSet_Contains (ValidTypes a) u \<or> Hash u = Hash t"
  by (auto simp: AddAlias_def TSet_Contains_Add) (auto simp: TSet_Contains_def)

lemma foldl_AddAlias_Storage [simp]:
  "Storage (foldl (\<lambda>a B. AddAlias a (TTypeOf B)) a Bs) = Storage a"
  by (induction Bs arbitrary: a) simp_all

lemma foldl_AddAlias_closures [simp]:
  "CopyConstruct (foldl (\<lambda>a B. AddAlias a (TTypeOf B)) a Bs) = CopyConstruct a"
  "Destruct (foldl (\<lambda>a B. AddAlias a (TTypeOf B)) a Bs) = Destruct a"
  "MainType (foldl (\<lambda>a B. AddAlias a (TTypeOf B)) a Bs) = MainType a"
  by (induction Bs arbitrary: a) simp_all

lemma foldl_AddAlias_Contains:
  "TSet_Contains (ValidTypes (foldl (\<lambda>a B. AddAlias a (TTypeOf B)) a Bs)) u
     \<longleftrightarrow> TSet_Contains (ValidTypes a) u \<or> Hash u \<in> TTypeHash ` set Bs"
  by (induction Bs arbitrary: a) (auto simp: AddAlias_Contains)

lemma FAny_ctor_Storage [simp]: "Storage (FAny_ctor T p fac) = p"
  by (simp add: FAny_ctor_def Let_def)

lemma FAny_ctor_closures [simp]:
  "CopyConstruct (FAny_ctor T p fac) = Some (T, fac)"
  "Destruct (FAny_ctor T p fac) = Some (T, fac)"
  "MainType (FAny_ctor T p fac) = TTypeOf T"
  by (simp_all add: FAny_ctor_def Let_def)

lemma FAny_ctor_Contains:
  "TSet_Contains (ValidTypes (FAny_ctor T p fac)) u
     \<longleftrightarrow> Hash u = TTypeHash T \<or> Hash u \<in> TTypeHash ` set (ForEachExplicitBase T)"
proof -
  have "\<not> CHasBases T \<Longrightarrow> ForEachExplicitBase T = []"
    by (simp add: CHasBases_def ForEachExplicitBase_def)
  then show ?thesis
    by (auto simp: FAny_ctor_def Let_def foldl_AddAlias_Contains TSet_Contains_Add)
       (auto simp: TSet_Contains_def)
qed

lemma FAny_WithAlias_Storage [simp]: "Storage (FAny_WithAlias a T) = Storage a"
  by (simp add: FAny_WithAlias_def Let_def)

lemma FAny_WithAlias_closures [simp]:
  "CopyConstruct (FAny_WithAlias a T) = CopyConstruct a"
  "Destruct (FAny_WithAlias a T) = Destruct a"
  "MainType (FAny_WithAlias a T) = MainType a"
  by (simp_all add: FAny_WithAlias_def Let_def)

lemma FAny_WithAlias_Contains:
  "TSet_Contains (ValidTypes (FAny_WithAlias a T)) u
     \<longleftrightarrow> TSet_Contains (ValidTypes a) u \<or> Hash u = TTypeHash T
         \<or> Hash u \<in> TTypeHash ` set (ForEachExplicitBase T)"
proof -
  have "\<not> CHasBases T \<Longrightarrow> ForEachExplicitBase T = []"
    by (simp add: CHasBases_def ForEachExplicitBase_def)
  then show ?thesis
    by (auto simp: FAny_WithAlias_def Let_def foldl_AddAlias_Contains AddAlias_Contains)
qed

lemma foldl_WithAlias_Storage [simp]: "Storage (foldl FAny_WithAlias a As) = Storage a"
  by (induction As arbitrary: a) simp_all

lemma foldl_WithAlias_closures [simp]:
  "CopyConstruct (foldl FAny_WithAlias a As) = CopyConstruct a"
  "Destruct (foldl FAny_WithAlias a As) = Destruct a"
  "MainType (foldl FAny_WithAlias a As) = MainType a"
  by (induction As arbitrary: a) simp_all

lemma foldl_WithAlias_Contains_mono:
  "TSet_Contains (ValidTypes a) u \<Longrightarrow> TSet_Contains (ValidTypes (foldl FAny_WithAlias a As)) u"
  by (induction As arbitrary: a) (simp_all add: FAny_WithAlias_Contains)

lemma wrapped_Contains_MainType:
  "TSet_Contains (ValidTypes (foldl FAny_WithAlias (FAny_ctor T p fac) As)) (TTypeOf T)"
  by (rule foldl_WithAlias_Contains_mono) (simp add: FAny_ctor_Contains)

text \<open>
  C2. For an \<open>FAny\<close> wrapping a non-null object of type \<open>T\<close> (with any aliases added
  afterwards), \<open>TryGet<T>()\<close> returns the pointer that was stored, which is not null; and
  for a type \<open>U\<close> that is not in \<open>ValidTypes\<close>, \<open>TryGet<U>()\<close> returns null. \<open>TryGet\<close> is a
  total function of the model: it has no failing branch.
\<close>

theorem FAny_TryGet_wrapped:
  assumes "newObject \<noteq> 0"
  shows "(let a = foldl FAny_WithAlias (FAny_ctor T newObject facilities) aliases
          in FAny_TryGet a T = newObject \<and> FAny_TryGet a T \<noteq> 0
             \<and> (\<not> TSet_Contains (ValidTypes a) (TTypeOf U) \<longrightarrow> FAny_TryGet a U = 0))"
  using assms wrapped_Contains_MainType[of T newObject facilities aliases]
  by (simp add: FAny_TryGet_def Let_def)

text \<open>
  C3. As stated, the claim fails: the default-constructed \<open>FAny\<close> has no \<open>CopyConstruct\<close>
  closure, and copying it is not fatal, because the copy constructor calls the closure
  only under \<^verbatim>\<open>if (other.IsValid())\<close>.
\<close>

theorem FAny_copy_unbound_counterexample:
  "\<not> (CopyConstruct FAny_empty = None
        \<longrightarrow> isl (FAny_copy_ctor FAny_empty \<lparr> heap_top = 0, trace = [] \<rparr>))"
  by (simp add: FAny_copy_ctor_def FAny_empty_def IsValid_def)

lemma CopyTypeInfo_fresh:
  "CopyTypeInfo (FAny_empty\<lparr> Storage := p \<rparr>) a = a\<lparr> Storage := p \<rparr>"
  by (simp add: CopyTypeInfo_def FAny_empty_def)

lemma FAny_copy_ctor_valid:
  assumes "Storage a \<noteq> 0" "CopyConstruct a = Some (T, fac)"
    "Facilities_CopyConstruct fac = Some f"
  shows "FAny_copy_ctor a w =
           (if fst (f (Storage a) w) = 0 then Inl (CopyConstructorFailed (TTypeName T))
            else Inr (a\<lparr> Storage := fst (f (Storage a) w) \<rparr>, snd (f (Storage a) w)))"
  using assms
  by (simp add: FAny_copy_ctor_def IsValid_def call_CopyConstruct_def Let_def
                split_beta CopyTypeInfo_fresh)

lemma FAny_copy_ctor_facility_unbound:
  assumes "Storage a \<noteq> 0" "CopyConstruct a = Some (T, fac)"
    "Facilities_CopyConstruct fac = None"
  shows "FAny_copy_ctor a w = Inl UnboundTFunction"
  using assms
  by (simp add: FAny_copy_ctor_def IsValid_def call_CopyConstruct_def)

text \<open>
  C3, amended. Copying an invalid (empty) \<open>FAny\<close>, the state in which the closure is
  unbound, is legal and yields an empty \<open>FAny\<close>. An \<open>FAny\<close> that wraps a non-null object
  is valid and its \<open>CopyConstruct\<close> closure is bound; copying it calls the facility's copy
  function. If that function is itself an unbound \<^verbatim>\<open>TFunction\<close>, the call is fatal
  (the check on calling an unbound function, which names no type). If it returns null
  (the default for a type that is not copy-constructible), the copy is fatal with a
  message naming the wrapped type. Otherwise the copy holds the new object with the
  source's type info and closures.
\<close>

theorem FAny_copy_ctor_contract:
  "(\<not> IsValid other \<longrightarrow> FAny_copy_ctor other w = Inr (FAny_empty, w))
   \<and> (let a = foldl FAny_WithAlias (FAny_ctor T newObject facilities) aliases
      in newObject \<noteq> 0 \<longrightarrow>
           IsValid a \<and> CopyConstruct a = Some (T, facilities)
           \<and> FAny_copy_ctor a w =
               (case Facilities_CopyConstruct facilities of
                  None \<Rightarrow> Inl UnboundTFunction
                | Some copyConstruct \<Rightarrow>
                    if fst (copyConstruct newObject w) = 0
                    then Inl (CopyConstructorFailed (TTypeName T))
                    else Inr (a\<lparr> Storage := fst (copyConstruct newObject w) \<rparr>,
                              snd (copyConstruct newObject w))))"
proof -
  let ?a = "foldl FAny_WithAlias (FAny_ctor T newObject facilities) aliases"
  have empty: "\<not> IsValid other \<longrightarrow> FAny_copy_ctor other w = Inr (FAny_empty, w)"
    by (simp add: FAny_copy_ctor_def)
  have bound: "CopyConstruct ?a = Some (T, facilities)" and st: "Storage ?a = newObject"
    by simp_all
  have copy: "FAny_copy_ctor ?a w =
               (case Facilities_CopyConstruct facilities of
                  None \<Rightarrow> Inl UnboundTFunction
                | Some copyConstruct \<Rightarrow>
                    if fst (copyConstruct newObject w) = 0
                    then Inl (CopyConstructorFailed (TTypeName T))
                    else Inr (?a\<lparr> Storage := fst (copyConstruct newObject w) \<rparr>,
                              snd (copyConstruct newObject w)))"
    if nn: "newObject \<noteq> 0"
  proof (cases "Facilities_CopyConstruct facilities")
    case None
    from nn st have "Storage ?a \<noteq> 0" by simp
    from FAny_copy_ctor_facility_unbound[OF this bound None] None
    show ?thesis by simp
  next
    case (Some f)
    from nn st have "Storage ?a \<noteq> 0" by simp
    from FAny_copy_ctor_valid[OF this bound Some, of w] Some st
    show ?thesis by simp
  qed
  from empty copy bound st show ?thesis
    by (simp add: Let_def IsValid_def)
qed

text \<open>
  C5. Move construction hands the storage pointer, the main type, both closures and the
  alias set to the new \<open>FAny\<close>, leaves the world as it was (no facility and no
  constructor of the payload runs), and leaves the source empty: storage null, no
  \<open>Destruct\<close>, no \<open>CopyConstruct\<close>, no valid types, \<open>IsValid()\<close> false.
\<close>

theorem FAny_move_ctor_transfers:
  "(case FAny_move_ctor other w of
      (this, other', w') \<Rightarrow>
        Storage this = Storage other \<and> MainType this = MainType other
        \<and> Destruct this = Destruct other \<and> CopyConstruct this = CopyConstruct other
        \<and> ValidTypes this = ValidTypes other \<and> this = other
        \<and> Storage other' = 0 \<and> Destruct other' = None \<and> CopyConstruct other' = None
        \<and> ValidTypes other' = [] \<and> \<not> IsValid other' \<and> other' = FAny_empty
        \<and> w' = w)"
  by (simp add: FAny_move_ctor_def Reset_def IsValid_def FAny_empty_def)

text \<open>
  The test "should respect type safety": \<^verbatim>\<open>FAny(new FAnyTest()).WithAlias<FAnyTestBase>()\<close>.
\<close>

theorem FAny_TryGet_wrapped_witness:
  "FAny_TryGet payload_FAnyTest FAnyTest = 1
   \<and> FAny_TryGet payload_FAnyTest FAnyTestBase = 1
   \<and> \<not> TSet_Contains (ValidTypes payload_FAnyTest) (TTypeOf FVector)
   \<and> FAny_TryGet payload_FAnyTest FVector = 0"
proof -
  have no: "\<not> TSet_Contains (ValidTypes payload_FAnyTest) (TTypeOf FVector)"
    by (simp add: payload_FAnyTest_def FAny_WithAlias_Contains FAny_ctor_Contains
          ForEachExplicitBase_def FVector_def FAnyTest_def FAnyTestBase_def)
  have base: "FAny_TryGet payload_FAnyTest FAnyTestBase = 1"
    by (simp add: payload_FAnyTest_def FAny_TryGet_def FAny_WithAlias_Contains)
  have "(1::nat) \<noteq> 0" by simp
  from FAny_TryGet_wrapped[OF this, of FAnyTest "TAnyTypeFacilities_default FAnyTest True"
         "[FAnyTestBase]" FVector] no base
  show ?thesis by (simp add: payload_FAnyTest_def Let_def)
qed

text \<open>
  The empty \<open>FAny\<close>; \<open>FCopyForbidden\<close> under the default facilities; a value whose
  facilities leave the copy function unbound; and the copyable \<open>FAnyTest\<close>, whose copy is
  the new object 2.
\<close>

theorem FAny_copy_ctor_contract_witness:
  "\<not> IsValid FAny_empty
   \<and> FAny_copy_ctor FAny_empty world0 = Inr (FAny_empty, world0)
   \<and> IsValid payload_FCopyForbidden
   \<and> FAny_copy_ctor payload_FCopyForbidden world0 = Inl (CopyConstructorFailed ''FCopyForbidden'')
   \<and> IsValid payload_unbound_facility
   \<and> FAny_copy_ctor payload_unbound_facility world0 = Inl UnboundTFunction
   \<and> IsValid payload_FAnyTest
   \<and> FAny_copy_ctor payload_FAnyTest world0 =
       Inr (payload_FAnyTest\<lparr> Storage := 2 \<rparr>,
            \<lparr> heap_top = 2, trace = [CopyConstructed (TTypeHash FAnyTest) 1 2] \<rparr>)"
proof -
  have e: "\<not> IsValid FAny_empty" by (simp add: IsValid_def FAny_empty_def)
  have nn: "(1::nat) \<noteq> 0" by simp
  from FAny_copy_ctor_contract[of FAny_empty world0 FCopyForbidden 1
         "TAnyTypeFacilities_default FCopyForbidden False" "[]"] e nn
  have 1: "FAny_copy_ctor FAny_empty world0 = Inr (FAny_empty, world0)
           \<and> IsValid payload_FCopyForbidden
           \<and> FAny_copy_ctor payload_FCopyForbidden world0
               = Inl (CopyConstructorFailed ''FCopyForbidden'')"
    by (simp add: payload_FCopyForbidden_def Let_def FCopyForbidden_def
                  TAnyTypeFacilities_default_def)
  from FAny_copy_ctor_contract[of FAny_empty world0 FAnyTest 1 unbound_facilities "[]"] nn
  have 2: "IsValid payload_unbound_facility
           \<and> FAny_copy_ctor payload_unbound_facility world0 = Inl UnboundTFunction"
    by (simp add: payload_unbound_facility_def Let_def unbound_facilities_def)
  from FAny_copy_ctor_contract[of FAny_empty world0 FAnyTest 1
         "TAnyTypeFacilities_default FAnyTest True" "[FAnyTestBase]"] nn
  have 3: "IsValid payload_FAnyTest
           \<and> FAny_copy_ctor payload_FAnyTest world0 =
               Inr (payload_FAnyTest\<lparr> Storage := 2 \<rparr>,
                    \<lparr> heap_top = 2, trace = [CopyConstructed (TTypeHash FAnyTest) 1 2] \<rparr>)"
    by (simp add: payload_FAnyTest_def Let_def TAnyTypeFacilities_default_def world0_def
                  emit_def)
  from e 1 2 3 show ?thesis by simp
qed

section \<open>IComposable: lookups\<close>

lemma TMap_Contains_Find: "TMap_Contains m k \<longleftrightarrow> TMap_Find m k \<noteq> None"
  by (simp add: TMap_Contains_def TMap_Find_def map_of_eq_None_iff)

lemma TMap_Find_Some_Contains: "TMap_Find m k = Some v \<Longrightarrow> TMap_Contains m k"
  by (simp add: TMap_Contains_Find)

lemma TMap_replace_keys:
  "map fst (map (\<lambda>e. if fst e = k then (k, v) else e) m) = map fst m"
  by (induction m) simp_all

lemma TMap_replace_Find:
  "k \<in> fst ` set m \<Longrightarrow> map_of (map (\<lambda>e. if fst e = k then (k, v) else e) m) k = Some v"
  by (induction m) auto

lemma TMap_replace_Find_other:
  "k' \<noteq> k \<Longrightarrow> map_of (map (\<lambda>e. if fst e = k then (k, v) else e) m) k' = map_of m k'"
  by (induction m) auto

lemma TMap_replace_absent:
  "k \<notin> fst ` set m \<Longrightarrow> map (\<lambda>e. if fst e = k then (k, v) else e) m = m"
  by (induction m) auto

lemma TMap_Find_Add_same [simp]: "TMap_Find (TMap_Add m k v) k = Some v"
proof (cases "TMap_Contains m k")
  case True
  then show ?thesis
    by (simp add: TMap_Find_def TMap_Add_def TMap_replace_Find TMap_Contains_def)
next
  case False
  then have "map_of m k = None"
    by (simp add: TMap_Contains_def map_of_eq_None_iff)
  with False show ?thesis
    by (simp add: TMap_Find_def TMap_Add_def map_add_def)
qed

lemma TMap_Find_Add_other [simp]: "k' \<noteq> k \<Longrightarrow> TMap_Find (TMap_Add m k v) k' = TMap_Find m k'"
  by (simp add: TMap_Find_def TMap_Add_def TMap_replace_Find_other map_add_def
           split: option.splits)

lemma TMap_keys_Add:
  "map fst (TMap_Add m k v) = (if TMap_Contains m k then map fst m else map fst m @ [k])"
  by (simp add: TMap_Add_def TMap_replace_keys)

lemma TMap_Contains_Add [simp]:
  "TMap_Contains (TMap_Add m k v) k' \<longleftrightarrow> k' = k \<or> TMap_Contains m k'"
  by (cases "k' = k") (simp_all add: TMap_Contains_Find)

lemma TMap_replace_idem:
  "map (\<lambda>e. if fst e = k then (k, v) else e) (map (\<lambda>e. if fst e = k then (k, v) else e) m)
     = map (\<lambda>e. if fst e = k then (k, v) else e) m"
  by (induction m) simp_all

lemma TMap_Add_idem [simp]: "TMap_Add (TMap_Add m k v) k v = TMap_Add m k v"
proof -
  have "TMap_Add (TMap_Add m k v) k v = map (\<lambda>e. if fst e = k then (k, v) else e) (TMap_Add m k v)"
    by (simp add: TMap_Add_def[of "TMap_Add m k v"])
  also have "\<dots> = TMap_Add m k v"
    by (simp add: TMap_Add_def[of m] TMap_replace_idem TMap_replace_absent TMap_Contains_def)
  finally show ?thesis .
qed

lemma TMap_Contains_Remove [simp]: "\<not> TMap_Contains (TMap_Remove m k) k"
  by (auto simp: TMap_Contains_def TMap_Remove_def)

text \<open>What \<open>HasComponentAlias\<close> computes, by the state of the alias table.\<close>

lemma HasComponentAlias_None:
  "TMap_Find (ComponentAliases c) h = None \<Longrightarrow> HasComponentAlias c h = (False, c)"
  by (simp add: HasComponentAlias_def HasComponentAliasUnchecked_def TMap_Contains_Find)

lemma HasComponentAlias_Some:
  assumes "TMap_Find (ComponentAliases c) h = Some l"
  shows "HasComponentAlias c h =
     (let l' = filter (\<lambda>i. TMap_Contains (Components c) i) l
      in if l' = []
         then (False, c\<lparr> ComponentAliases := TMap_Remove (TMap_Add (ComponentAliases c) h l') h \<rparr>)
         else (True, c\<lparr> ComponentAliases := TMap_Add (ComponentAliases c) h l' \<rparr>))"
  using assms TMap_Find_Some_Contains[OF assms]
  by (simp add: HasComponentAlias_def HasComponentAliasUnchecked_def Let_def)

lemma HasComponentAlias_Components [simp]:
  "Components (snd (HasComponentAlias c h)) = Components c"
  by (cases "TMap_Find (ComponentAliases c) h")
     (simp_all add: HasComponentAlias_None HasComponentAlias_Some Let_def)

lemma HasComponentAlias_other_fields [simp]:
  "ComponentLogistics (snd (HasComponentAlias c h)) = ComponentLogistics c"
  "LastAddedComponentHash (snd (HasComponentAlias c h)) = LastAddedComponentHash c"
  "OnComponentAdded (snd (HasComponentAlias c h)) = OnComponentAdded c"
  by (cases "TMap_Find (ComponentAliases c) h";
      simp add: HasComponentAlias_None HasComponentAlias_Some Let_def)+

lemma HasComponentAlias_idem:
  "HasComponentAlias (snd (HasComponentAlias c h)) h = HasComponentAlias c h"
proof (cases "TMap_Find (ComponentAliases c) h")
  case None
  then show ?thesis by (simp add: HasComponentAlias_None)
next
  case (Some l)
  let ?l = "filter (\<lambda>i. TMap_Contains (Components c) i) l"
  show ?thesis
  proof (cases "?l = []")
    case True
    let ?c1 = "c\<lparr> ComponentAliases := TMap_Remove (TMap_Add (ComponentAliases c) h ?l) h \<rparr>"
    from True Some have 1: "HasComponentAlias c h = (False, ?c1)"
      by (simp add: HasComponentAlias_Some Let_def)
    have "TMap_Find (ComponentAliases ?c1) h = None"
      using TMap_Contains_Remove[of "TMap_Add (ComponentAliases c) h ?l" h]
      by (simp add: TMap_Contains_Find)
    then have "HasComponentAlias ?c1 h = (False, ?c1)"
      by (rule HasComponentAlias_None)
    with 1 show ?thesis by simp
  next
    case False
    let ?c1 = "c\<lparr> ComponentAliases := TMap_Add (ComponentAliases c) h ?l \<rparr>"
    from False Some have 1: "HasComponentAlias c h = (True, ?c1)"
      by (simp add: HasComponentAlias_Some Let_def)
    have "TMap_Find (ComponentAliases ?c1) h = Some ?l" by simp
    from HasComponentAlias_Some[OF this] False
    have "HasComponentAlias ?c1 h = (True, ?c1)"
      by (simp add: Let_def)
    with 1 show ?thesis by simp
  qed
qed

lemma GetAliasedComponents_snd [simp]:
  "snd (GetAliasedComponents c h) = snd (HasComponentAlias c h)"
  by (cases "HasComponentAlias c h") (simp add: GetAliasedComponents_def split: option.splits)

lemma GetAliasedComponents_idem:
  "GetAliasedComponents (snd (GetAliasedComponents c h)) h = GetAliasedComponents c h"
proof -
  obtain b c1 where H: "HasComponentAlias c h = (b, c1)"
    by (cases "HasComponentAlias c h")
  with HasComponentAlias_idem[of c h] have H1: "HasComponentAlias c1 h = (b, c1)" by simp
  have "snd (GetAliasedComponents c h) = c1" using H by simp
  then show ?thesis
    by (simp add: GetAliasedComponents_def H H1)
qed

lemma GetComponentsDynamic_snd [simp]:
  "snd (GetComponentsDynamic c h) = snd (HasComponentAlias c h)"
  by (cases "GetAliasedComponents c h")
     (use GetAliasedComponents_snd[of c h] in \<open>simp add: GetComponentsDynamic_def\<close>)

lemma GetExactComponent_pruned [simp]:
  "GetExactComponent (snd (HasComponentAlias c h)) h' = GetExactComponent c h'"
  by (simp add: GetExactComponent_def HasExactComponent_def)

lemma GetComponentsDynamic_idem:
  "GetComponentsDynamic (snd (GetComponentsDynamic c h)) h = GetComponentsDynamic c h"
proof -
  let ?c1 = "snd (HasComponentAlias c h)"
  have "GetAliasedComponents ?c1 h = GetAliasedComponents c h"
    using GetAliasedComponents_idem[of c h] by simp
  then have "GetComponentsDynamic ?c1 h = GetComponentsDynamic c h"
    by (simp add: GetComponentsDynamic_def)
  then show ?thesis by simp
qed

lemma GetComponents_snd [simp]:
  "snd (GetComponents T c) = snd (HasComponentAlias c (TTypeHash T))"
  by (cases "GetComponentsDynamic c (TTypeHash T)")
     (use GetComponentsDynamic_snd[of c "TTypeHash T"] in
       \<open>simp add: GetComponents_def split: sum.splits\<close>)

lemma GetComponents_idem:
  "GetComponents T (snd (GetComponents T c)) = GetComponents T c"
proof -
  let ?c1 = "snd (HasComponentAlias c (TTypeHash T))"
  have "GetComponentsDynamic ?c1 (TTypeHash T) = GetComponentsDynamic c (TTypeHash T)"
    using GetComponentsDynamic_idem[of c "TTypeHash T"] by simp
  then have "GetComponents T ?c1 = GetComponents T c"
    by (simp add: GetComponents_def)
  then show ?thesis by simp
qed

lemma transform_TryGet_no_null:
  "None \<notin> set xs \<Longrightarrow> transform_TryGet T xs = Inr (map (\<lambda>x. FAny_TryGet (the x) T) xs)"
proof (induction xs)
  case Nil
  then show ?case by simp
next
  case (Cons x xs)
  then show ?case by (cases x) simp_all
qed

lemma GetAliasedComponents_fst:
  "fst (GetAliasedComponents c h) =
     (case TMap_Find (ComponentAliases c) h of
        None \<Rightarrow> []
      | Some l \<Rightarrow> map (TMap_Find (Components c)) (filter (\<lambda>i. TMap_Contains (Components c) i) l))"
proof (cases "TMap_Find (ComponentAliases c) h")
  case None
  then show ?thesis
    by (simp add: GetAliasedComponents_def HasComponentAlias_None)
next
  case (Some l)
  then show ?thesis
    by (simp add: GetAliasedComponents_def HasComponentAlias_Some Let_def)
qed

lemma GetAliasedComponents_no_null: "None \<notin> set (fst (GetAliasedComponents c h))"
  by (auto simp: GetAliasedComponents_fst TMap_Contains_Find split: option.splits)

lemma GetExactComponent_no_null: "None \<notin> set (GetExactComponent c h)"
  by (simp add: GetExactComponent_def HasExactComponent_def TMap_Contains_Find)

lemma GetComponentsDynamic_fst:
  "fst (GetComponentsDynamic c h) = GetExactComponent c h @ fst (GetAliasedComponents c h)"
  by (cases "GetAliasedComponents c h") (simp add: GetComponentsDynamic_def)

lemma GetComponentsDynamic_no_null: "None \<notin> set (fst (GetComponentsDynamic c h))"
  using GetAliasedComponents_no_null[of c h] GetExactComponent_no_null[of c h]
  by (simp add: GetComponentsDynamic_fst)

lemma GetComponents_fst:
  "fst (GetComponents T c) =
     Inr (FilterValid (map (\<lambda>x. FAny_TryGet (the x) T) (fst (GetComponentsDynamic c (TTypeHash T)))))"
  using transform_TryGet_no_null[OF GetComponentsDynamic_no_null, of T c "TTypeHash T"]
  by (cases "GetComponentsDynamic c (TTypeHash T)") (simp add: GetComponents_def)

lemma IComposable_TryGet_fst:
  "fst (IComposable_TryGet T c) =
     Inr (First (FilterValid (map (\<lambda>x. FAny_TryGet (the x) T)
                   (fst (GetComponentsDynamic c (TTypeHash T))))) 0)"
  using GetComponents_fst[of T c]
  by (cases "GetComponents T c") (simp add: IComposable_TryGet_def)

text \<open>
  C4. For any composable and type, two calls of \<open>GetComponents<T>()\<close> in a row return the
  same pointers (as a list, hence as a set), neither fails, and the second call leaves the
  composable as the first one left it, whatever the first call pruned.
\<close>

theorem GetComponents_twice:
  "(case GetComponents T c of
      (r1, c1) \<Rightarrow>
        (case GetComponents T c1 of
           (r2, c2) \<Rightarrow>
             (\<exists>ps1 ps2. r1 = Inr ps1 \<and> r2 = Inr ps2 \<and> set ps1 = set ps2 \<and> ps1 = ps2)
             \<and> c2 = c1))"
proof -
  obtain r1 c1 where 1: "GetComponents T c = (r1, c1)" by (cases "GetComponents T c")
  then have c1: "c1 = snd (GetComponents T c)" by simp
  have 2: "GetComponents T c1 = (r1, c1)"
    unfolding c1 using GetComponents_idem[of T c] 1 by simp
  from GetComponents_fst[of T c] 1 obtain ps where "r1 = Inr ps" by simp
  with 1 2 show ?thesis by simp
qed

lemma components_valid_Find:
  assumes "components_valid c" "TMap_Find (Components c) (TTypeHash T) = Some a"
  shows "Storage a \<noteq> 0 \<and> TSet_Contains (ValidTypes a) (TTypeOf T)"
proof -
  from assms(2) have "(TTypeHash T, a) \<in> set (Components c)"
    by (simp add: TMap_Find_def map_of_SomeD)
  with assms(1) show ?thesis
    by (auto simp: components_valid_def list_all_iff TSet_Contains_def)
qed

lemma exact_first:
  assumes "TMap_Find (Components c) (TTypeHash T) = Some a"
    and "Storage a \<noteq> 0" and "TSet_Contains (ValidTypes a) (TTypeOf T)"
  shows "fst (GetComponentsDynamic c (TTypeHash T))
           = Some a # fst (GetAliasedComponents c (TTypeHash T))"
    and "\<exists>rest. fst (GetComponents T c) = Inr (Storage a # rest)"
    and "fst (IComposable_TryGet T c) = Inr (Storage a)"
proof -
  from assms(1) have "HasExactComponent c (TTypeHash T)"
    by (simp add: HasExactComponent_def TMap_Contains_Find)
  with assms(1) show 1: "fst (GetComponentsDynamic c (TTypeHash T))
           = Some a # fst (GetAliasedComponents c (TTypeHash T))"
    by (simp add: GetComponentsDynamic_fst GetExactComponent_def)
  from assms(2,3) have "FAny_TryGet a T = Storage a" by (simp add: FAny_TryGet_def)
  with assms(2) show "\<exists>rest. fst (GetComponents T c) = Inr (Storage a # rest)"
    by (simp add: GetComponents_fst 1 FilterValid_def)
  from \<open>FAny_TryGet a T = Storage a\<close> assms(2)
  show "fst (IComposable_TryGet T c) = Inr (Storage a)"
    by (simp add: IComposable_TryGet_fst 1 FilterValid_def First_def)
qed

section \<open>IComposable: adding components\<close>

lemma AddComponentAlias_fields [simp]:
  "Components (AddComponentAlias c m v) = Components c"
  "ComponentLogistics (AddComponentAlias c m v) = ComponentLogistics c"
  "LastAddedComponentHash (AddComponentAlias c m v) = LastAddedComponentHash c"
  "OnComponentAdded (AddComponentAlias c m v) = OnComponentAdded c"
  by (simp_all add: AddComponentAlias_def split: option.splits)

lemma foldl_AddComponentAlias_fields [simp]:
  "Components (foldl (\<lambda>c B. AddComponentAlias c m (TTypeHash B)) c Bs) = Components c"
  "ComponentLogistics (foldl (\<lambda>c B. AddComponentAlias c m (TTypeHash B)) c Bs) = ComponentLogistics c"
  "LastAddedComponentHash (foldl (\<lambda>c B. AddComponentAlias c m (TTypeHash B)) c Bs) = LastAddedComponentHash c"
  "OnComponentAdded (foldl (\<lambda>c B. AddComponentAlias c m (TTypeHash B)) c Bs) = OnComponentAdded c"
  by (induction Bs arbitrary: c) simp_all

lemma FAny_TryGet_ctor [simp]: "FAny_TryGet (FAny_ctor T p fac) T = p"
  by (simp add: FAny_TryGet_def FAny_ctor_Contains)

lemma AddComponent_fatal:
  "HasExactComponent self (TTypeHash T) \<Longrightarrow>
     AddComponent this T tr p fac self w =
       (if p = 0 then Inl NullComponent else Inl (ComponentAlreadyExists (TTypeName T)))"
  by (simp add: AddComponent_def)

lemma AddComponent_succeeds:
  assumes "\<not> HasExactComponent self (TTypeHash T)" "p \<noteq> 0"
  shows "\<exists>self' w'. AddComponent this T tr p fac self w = Inr (self', w')
           \<and> Components self' = TMap_Add (Components self) (TTypeHash T) (FAny_ctor T p fac)
           \<and> Components self' = Components self @ [(TTypeHash T, FAny_ctor T p fac)]
           \<and> LastAddedComponentHash self' = TTypeHash T"
  using assms
  by (simp add: AddComponent_def Let_def HasExactComponent_def)
     (simp add: TMap_Add_def)

text \<open>
  C7. \<open>AddComponent<T>\<close> on a composable that already has a component under the hash of
  \<open>T\<close> always terminates the program, for a non-null pointer with the message naming
  \<open>T\<close>; no composable is returned, so nothing is replaced or duplicated. Adding a type
  that is not present succeeds: the new component is appended and all others stay.
\<close>

theorem AddComponent_exact_type_once:
  "(HasExactComponent self (TTypeHash T) \<longrightarrow>
      isl (AddComponent this T tr newComponent facilities self w)
      \<and> (newComponent \<noteq> 0 \<longrightarrow>
           AddComponent this T tr newComponent facilities self w
             = Inl (ComponentAlreadyExists (TTypeName T))))
   \<and> (\<not> HasExactComponent self (TTypeHash T) \<and> newComponent \<noteq> 0 \<longrightarrow>
        (\<exists>self' w'. AddComponent this T tr newComponent facilities self w = Inr (self', w')
           \<and> Components self'
               = Components self @ [(TTypeHash T, FAny_ctor T newComponent facilities)]
           \<and> TMap_Find (Components self') (TTypeHash T)
               = Some (FAny_ctor T newComponent facilities)
           \<and> (\<forall>k. k \<noteq> TTypeHash T \<longrightarrow>
                  TMap_Find (Components self') k = TMap_Find (Components self) k)))"
proof (cases "HasExactComponent self (TTypeHash T)")
  case True
  then show ?thesis by (simp add: AddComponent_fatal)
next
  case False
  show ?thesis
  proof (cases "newComponent = 0")
    case True
    with False show ?thesis by simp
  next
    case nonnull: False
    from AddComponent_succeeds[OF False nonnull, of this tr facilities w]
    obtain self' w' where
      r: "AddComponent this T tr newComponent facilities self w = Inr (self', w')"
         "Components self'
            = TMap_Add (Components self) (TTypeHash T) (FAny_ctor T newComponent facilities)"
         "Components self'
            = Components self @ [(TTypeHash T, FAny_ctor T newComponent facilities)]"
      by blast
    have "TMap_Find (Components self') (TTypeHash T)
            = Some (FAny_ctor T newComponent facilities)"
      unfolding r(2) by simp
    moreover have "\<forall>k. k \<noteq> TTypeHash T \<longrightarrow>
                     TMap_Find (Components self') k = TMap_Find (Components self) k"
      unfolding r(2) by simp
    ultimately show ?thesis using False r(1,3) by simp
  qed
qed

section \<open>IComposable: what every buildable composable satisfies\<close>

lemma components_valid_empty: "components_valid (IComposable_empty\<lparr> OnComponentAdded := hook \<rparr>)"
  by (simp add: components_valid_def IComposable_empty_def)

lemma FAny_ctor_valid_entry:
  "TTypeHash T \<in> Hash ` set (ValidTypes (FAny_ctor T p fac))"
  using FAny_ctor_Contains[of T p fac "TTypeOf T"] by (simp add: TSet_Contains_def)

lemma components_valid_AddComponent:
  assumes "components_valid c" "AddComponent this T tr p fac c w = Inr (c', w')"
  shows "components_valid c'"
proof -
  from assms(2) have p: "p \<noteq> 0" and no: "\<not> HasExactComponent c (TTypeHash T)"
    by (auto simp: AddComponent_def split: if_splits)
  from AddComponent_succeeds[OF no p, of this tr fac w] assms(2)
  have "Components c' = Components c @ [(TTypeHash T, FAny_ctor T p fac)]" by auto
  with assms(1) p show ?thesis
    by (simp add: components_valid_def FAny_ctor_valid_entry)
qed

lemma list_all_TMap_Add:
  "list_all P m \<Longrightarrow> P (k, v) \<Longrightarrow> list_all P (TMap_Add m k v)"
  by (auto simp: TMap_Add_def list_all_iff)

lemma FAny_WithAlias_hashes_mono:
  "k \<in> Hash ` set (ValidTypes a) \<Longrightarrow> k \<in> Hash ` set (ValidTypes (FAny_WithAlias a T))"
proof -
  assume "k \<in> Hash ` set (ValidTypes a)"
  then obtain t where "t \<in> set (ValidTypes a)" "Hash t = k" by auto
  then have "TSet_Contains (ValidTypes a) t" by (auto simp: TSet_Contains_def)
  then have "TSet_Contains (ValidTypes (FAny_WithAlias a T)) t"
    by (simp add: FAny_WithAlias_Contains)
  with \<open>Hash t = k\<close> show ?thesis by (simp add: TSet_Contains_def)
qed

lemma components_valid_AddComponentAlias_as:
  assumes "components_valid c" "AddComponentAlias_as c V m = Inr c'"
  shows "components_valid c' \<and> LastAddedComponentHash c' = LastAddedComponentHash c"
proof -
  from assms(2) obtain boxed where b: "TMap_Find (Components c) m = Some boxed"
    by (auto simp: AddComponentAlias_as_def split: option.splits)
  then have "(m, boxed) \<in> set (Components c)"
    by (simp add: TMap_Find_def map_of_SomeD)
  with assms(1) have "Storage boxed \<noteq> 0 \<and> m \<in> Hash ` set (ValidTypes boxed)"
    by (auto simp: components_valid_def list_all_iff)
  then have ok: "Storage (FAny_WithAlias boxed V) \<noteq> 0
                 \<and> m \<in> Hash ` set (ValidTypes (FAny_WithAlias boxed V))"
    by (simp add: FAny_WithAlias_hashes_mono)
  from assms(2) b have
    "Components c' = TMap_Add (Components c) m (FAny_WithAlias boxed V)
     \<and> LastAddedComponentHash c' = LastAddedComponentHash c"
    by (auto simp: AddComponentAlias_as_def Let_def split: if_splits)
  with assms(1) ok show ?thesis
    by (simp add: components_valid_def list_all_TMap_Add)
qed

lemma components_valid_AddAlias_fold:
  "components_valid c \<Longrightarrow> AddAlias_fold c Vs = Inr c' \<Longrightarrow> components_valid c'"
proof (induction Vs arbitrary: c)
  case Nil
  then show ?case by simp
next
  case (Cons V Vs)
  from Cons.prems(2) obtain c1 where
    1: "AddComponentAlias_as c V (LastAddedComponentHash c) = Inr c1" "AddAlias_fold c1 Vs = Inr c'"
    by (auto split: sum.splits)
  from components_valid_AddComponentAlias_as[OF Cons.prems(1) 1(1)] Cons.IH[OF _ 1(2)]
  show ?case by simp
qed

lemma components_valid_AddAlias:
  "components_valid c \<Longrightarrow> IComposable_AddAlias c Vs = Inr c' \<Longrightarrow> components_valid c'"
  by (auto simp: IComposable_AddAlias_def split: if_splits dest: components_valid_AddAlias_fold)

lemma FAny_copy_ctor_keeps_valid:
  assumes "FAny_copy_ctor a w = Inr (a', w')" "Storage a \<noteq> 0"
  shows "Storage a' \<noteq> 0 \<and> ValidTypes a' = ValidTypes a"
  using assms
  by (auto simp: FAny_copy_ctor_def IsValid_def call_CopyConstruct_def Let_def split_beta
                 CopyTypeInfo_def
           split: option.splits if_splits)

lemma Components_copy_keeps_valid:
  assumes "Components_copy m w = Inr (m', w')"
    and "list_all (\<lambda>e. Storage (snd e) \<noteq> 0 \<and> fst e \<in> Hash ` set (ValidTypes (snd e))) m"
  shows "list_all (\<lambda>e. Storage (snd e) \<noteq> 0 \<and> fst e \<in> Hash ` set (ValidTypes (snd e))) m'"
  using assms
proof (induction m arbitrary: w m' w')
  case Nil
  then show ?case by simp
next
  case (Cons e m)
  obtain k a where e: "e = (k, a)" by (cases e)
  from Cons.prems(1) e obtain a' w1 rest w2 where
    1: "FAny_copy_ctor a w = Inr (a', w1)" "Components_copy m w1 = Inr (rest, w2)"
       "m' = (k, a') # rest"
    by (auto split: sum.splits prod.splits)
  from Cons.prems(2) e have a: "Storage a \<noteq> 0" "k \<in> Hash ` set (ValidTypes a)" by simp_all
  from FAny_copy_ctor_keeps_valid[OF 1(1) a(1)] a(2)
  have "Storage a' \<noteq> 0 \<and> k \<in> Hash ` set (ValidTypes a')" by simp
  moreover from Cons.IH[OF 1(2)] Cons.prems(2) have
    "list_all (\<lambda>e. Storage (snd e) \<noteq> 0 \<and> fst e \<in> Hash ` set (ValidTypes (snd e))) rest"
    by simp
  ultimately show ?case using 1(3) by simp
qed

lemma components_valid_copy_ctor:
  assumes "components_valid c" "IComposable_copy_ctor this c w = Inr (c', w')"
  shows "components_valid c'"
proof -
  from assms(2) obtain m' w1 where
    1: "Components_copy (Components c) w = Inr (m', w1)" "Components c' = m'"
    by (auto simp: IComposable_copy_ctor_def Let_def split: sum.splits prod.splits)
  from Components_copy_keeps_valid[OF 1(1)] assms(1) 1(2) show ?thesis
    by (simp add: components_valid_def)
qed

lemma components_valid_move_ctor:
  assumes "components_valid c" "IComposable_move_ctor this other_addr c w = (c', c'', w')"
  shows "components_valid c' \<and> components_valid c''"
  using assms
  by (auto simp: IComposable_move_ctor_def NotifyMoveComponents_def Let_def
                 components_valid_def ResetComponents_def split: if_splits)

lemma components_valid_lookup:
  assumes "components_valid c" "GetComponents T c = (r, c')"
  shows "components_valid c'"
proof -
  from assms(2) have "c' = snd (GetComponents T c)" by simp
  with assms(1) show ?thesis by (simp add: components_valid_def)
qed

lemma constructible_valid: "constructible c \<Longrightarrow> components_valid c"
proof (induction rule: constructible.induct)
  case (default_ctor hook)
  show ?case by (rule components_valid_empty)
next
  case (add_component c this T tr p fac w c' w')
  then show ?case by (auto intro: components_valid_AddComponent)
next
  case (add_alias c ValidAs c')
  then show ?case by (auto intro: components_valid_AddAlias)
next
  case (copy_ctor c this w c' w')
  then show ?case by (auto intro: components_valid_copy_ctor)
next
  case (move_ctor_new c this other_addr w c' c'' w')
  then show ?case using components_valid_move_ctor by blast
next
  case (move_ctor_source c this other_addr w c' c'' w')
  then show ?case using components_valid_move_ctor by blast
next
  case (lookup c T r c')
  then show ?case by (auto intro: components_valid_lookup)
qed

text \<open>
  C10. In a composable built through the interface that holds a component of exact type
  \<open>T\<close>, \<open>GetComponentsDynamic(hash(T))\<close> yields that component first, followed by the
  alias matches; so \<open>GetComponents<T>()\<close> starts with its (non-null) object and
  \<open>TryGet<T>()\<close> returns it.
\<close>

theorem exact_component_first:
  assumes "constructible c" and "HasExactComponent c (TTypeHash T)"
  shows "\<exists>a. TMap_Find (Components c) (TTypeHash T) = Some a \<and> Storage a \<noteq> 0
           \<and> fst (GetComponentsDynamic c (TTypeHash T))
               = Some a # fst (GetAliasedComponents c (TTypeHash T))
           \<and> (\<exists>rest. fst (GetComponents T c) = Inr (Storage a # rest))
           \<and> fst (IComposable_TryGet T c) = Inr (Storage a)"
proof -
  from assms(2) obtain a where a: "TMap_Find (Components c) (TTypeHash T) = Some a"
    by (auto simp: HasExactComponent_def TMap_Contains_Find)
  from components_valid_Find[OF constructible_valid[OF assms(1)] a]
  have v: "Storage a \<noteq> 0" "TSet_Contains (ValidTypes a) (TTypeOf T)" by simp_all
  from exact_first[OF a v] a v(1) show ?thesis by blast
qed

section \<open>Evaluating the examples\<close>

lemmas eval_defs =
  AddComponent_def IComposable_empty_def world0_def HasExactComponent_def
  TMap_Contains_def TMap_Add_def TMap_Find_def FAny_ctor_def TSet_Add_def TSet_Contains_def
  CHasBases_def TAnyTypeFacilities_default_def emit_def
  CCompatibleExplicitComponent_def CCopyAwareComponent_def CMoveAwareComponent_def
  FAny_TryGet_def Let_def IComposable_copy_ctor_def FAny_copy_ctor_def IsValid_def
  call_CopyConstruct_def CopyTypeInfo_def FAny_empty_def NotifyCopyComponents_def
  Logistics_Copy_def IComposable_move_ctor_def NotifyMoveComponents_def Logistics_Move_def
  ResetComponents_def

lemma added_A_eval:
  "\<exists>A wA. added_A = Inr (A, wA)
     \<and> map (\<lambda>e. Storage (snd e)) (Components A) = [1]
     \<and> map (\<lambda>e. unboxedComponent (snd e)) (ComponentLogistics A) = [1]
     \<and> trace wA = [OnCreatedAt 1 100]"
  by (simp add: added_A_def FAwareComponent_def aware_traits_def eval_defs)

text \<open>
  C1. The code at a composable with one copy-aware component (object 1, owner 100) copied
  to a new composable at 200: the component of the copy is object 2, but
  \<open>NotifyCopyComponents\<close> hands the closure \<^verbatim>\<open>other.Components[key]\<close>, the source's
  \<open>FAny\<close>, so \<open>OnCopiedAt\<close> runs on object 1 with itself as \<open>from\<close>. The claim asks for
  the event \<open>OnCopiedAt 2 200 1\<close>.
\<close>

theorem copy_hook_runs_on_source_component:
  "(case copied_B of
      Inl e \<Rightarrow> False
    | Inr (B, wB) \<Rightarrow>
        map (\<lambda>e. Storage (snd e)) (Components B) = [2]
        \<and> trace wB = [OnCreatedAt 1 100,
                       CopyConstructed (TTypeHash FAwareComponent) 1 2,
                       OnCopiedAt 1 200 1])"
  by (simp add: copied_B_def added_A_def FAwareComponent_def aware_traits_def eval_defs)

text \<open>
  C6. The code at the copy from above (owner 200, component object 2) moved to a new
  composable at 300: the source is left empty, but the copied logistics entry still
  captures object 1, the component of the composable at 100, so \<open>OnMovedAt\<close> runs on
  object 1 and never on object 2, the component that moved. The claim asks for the event
  \<open>OnMovedAt 2 300\<close>.
\<close>

theorem move_hook_after_copy_runs_on_foreign_component:
  "(case moved_C of
      Inl e \<Rightarrow> False
    | Inr (C, B', wC) \<Rightarrow>
        map (\<lambda>e. Storage (snd e)) (Components C) = [2]
        \<and> trace wC = [OnCreatedAt 1 100,
                       CopyConstructed (TTypeHash FAwareComponent) 1 2,
                       OnCopiedAt 1 200 1,
                       OnMovedAt 1 300]
        \<and> Components B' = [] \<and> ComponentLogistics B' = [] \<and> ComponentAliases B' = []
        \<and> LastAddedComponentHash B' = 0)"
  by (simp add: moved_C_def copied_B_def added_A_def FAwareComponent_def aware_traits_def eval_defs)

lemmas fixture_defs =
  FComponentBase_def FComponentA_def IComponentInterface_def plain_traits_def
  the_composable_def the_world_def base_added_def both_added_def aliased_def
  composable_aliased_def FAwareComponent_def aware_traits_def

lemmas lookup_defs =
  IComposable_AddAlias_def AddComponentAlias_as_def AddComponentAlias_def
  HasComponentAliasUnchecked_def FAny_WithAlias_def AddAlias_def
  GetComponents_def GetComponentsDynamic_def GetExactComponent_def GetAliasedComponents_def
  HasComponentAlias_def TMap_Remove_def FilterValid_def IComposable_TryGet_def First_def

lemma Inr_the: "\<not> isl r \<Longrightarrow> r = Inr (the_composable r, the_world r)"
  by (cases r) (auto simp: the_composable_def the_world_def)

lemma base_added_ok: "\<not> isl base_added"
  by (simp add: fixture_defs eval_defs)

lemma both_added_ok: "\<not> isl both_added"
  by (simp add: fixture_defs eval_defs)

lemma aliased_ok: "aliased = Inr composable_aliased"
  by (simp add: fixture_defs eval_defs lookup_defs)

lemma constructible_aliased: "constructible composable_aliased"
proof -
  have "constructible (IComposable_empty\<lparr> OnComponentAdded := False \<rparr>)"
    by (rule constructible.default_ctor)
  then have 0: "constructible IComposable_empty" by (simp add: IComposable_empty_def)
  have 1: "constructible (the_composable base_added)"
    using constructible.add_component[OF 0] Inr_the[OF base_added_ok]
    unfolding base_added_def by metis
  have 2: "constructible (the_composable both_added)"
    using constructible.add_component[OF 1] Inr_the[OF both_added_ok]
    unfolding both_added_def by metis
  show ?thesis
    using constructible.add_alias[OF 2] aliased_ok unfolding aliased_def by metis
qed

lemma aliased_lookup:
  "HasExactComponent composable_aliased (TTypeHash FComponentBase)"
  "fst (GetComponents FComponentBase composable_aliased) = Inr [1, 2]"
  "map_option Storage (TMap_Find (Components composable_aliased) (TTypeHash FComponentBase)) = Some 1"
  by (simp_all add: fixture_defs eval_defs lookup_defs)

text \<open>
  \<open>FComponentBase\<close> at object 1, and \<open>FComponentA\<close> at object 2 aliased as
  \<open>FComponentBase\<close>: both are found, the exact one first.
\<close>

theorem exact_component_first_witness:
  "constructible composable_aliased
   \<and> HasExactComponent composable_aliased (TTypeHash FComponentBase)
   \<and> fst (GetComponents FComponentBase composable_aliased) = Inr [1, 2]
   \<and> fst (IComposable_TryGet FComponentBase composable_aliased) = Inr 1"
proof -
  from exact_component_first[OF constructible_aliased aliased_lookup(1)]
  obtain a where
    a: "TMap_Find (Components composable_aliased) (TTypeHash FComponentBase) = Some a"
       "fst (IComposable_TryGet FComponentBase composable_aliased) = Inr (Storage a)"
    by blast
  from a(1) aliased_lookup(3) have "Storage a = 1" by simp
  with a(2) constructible_aliased aliased_lookup(1,2) show ?thesis by simp
qed

text \<open>
  A composable holding \<open>FComponentBase\<close>: adding it again, and adding \<open>FSimpleComponent\<close>.
\<close>

theorem AddComponent_exact_type_once_witness:
  "HasExactComponent (the_composable base_added) (TTypeHash FComponentBase)
   \<and> AddComponent 100 FComponentBase plain_traits 3
        (TAnyTypeFacilities_default FComponentBase True)
        (the_composable base_added) (the_world base_added)
       = Inl (ComponentAlreadyExists ''Mcro::Test::FComponentBase'')
   \<and> \<not> HasExactComponent (the_composable base_added) (TTypeHash FSimpleComponent)
   \<and> (\<exists>self' w'.
         AddComponent 100 FSimpleComponent plain_traits 3
           (TAnyTypeFacilities_default FSimpleComponent True)
           (the_composable base_added) (the_world base_added) = Inr (self', w')
         \<and> map fst (Components self') = [TTypeHash FComponentBase, TTypeHash FSimpleComponent]
         \<and> map (\<lambda>e. Storage (snd e)) (Components self') = [1, 3])"
proof -
  have has: "HasExactComponent (the_composable base_added) (TTypeHash FComponentBase)"
    by (simp add: fixture_defs eval_defs)
  have hasnt: "\<not> HasExactComponent (the_composable base_added) (TTypeHash FSimpleComponent)"
    by (simp add: fixture_defs eval_defs FSimpleComponent_def)
  have comps: "map fst (Components (the_composable base_added)) = [TTypeHash FComponentBase]"
              "map (\<lambda>e. Storage (snd e)) (Components (the_composable base_added)) = [1]"
    by (simp_all add: fixture_defs eval_defs)
  have nn: "(3::nat) \<noteq> 0" by simp
  from AddComponent_exact_type_once[of "the_composable base_added" FComponentBase 100
         plain_traits 3 "TAnyTypeFacilities_default FComponentBase True" "the_world base_added"]
       has nn
  have dup: "AddComponent 100 FComponentBase plain_traits 3
        (TAnyTypeFacilities_default FComponentBase True)
        (the_composable base_added) (the_world base_added)
       = Inl (ComponentAlreadyExists ''Mcro::Test::FComponentBase'')"
    by (simp add: FComponentBase_def)
  from AddComponent_exact_type_once[of "the_composable base_added" FSimpleComponent 100
         plain_traits 3 "TAnyTypeFacilities_default FSimpleComponent True" "the_world base_added"]
       hasnt nn
  obtain self' w' where
    r: "AddComponent 100 FSimpleComponent plain_traits 3
           (TAnyTypeFacilities_default FSimpleComponent True)
           (the_composable base_added) (the_world base_added) = Inr (self', w')"
       "Components self' = Components (the_composable base_added)
           @ [(TTypeHash FSimpleComponent,
               FAny_ctor FSimpleComponent 3 (TAnyTypeFacilities_default FSimpleComponent True))]"
    by auto
  from r comps have
    "map fst (Components self') = [TTypeHash FComponentBase, TTypeHash FSimpleComponent]
     \<and> map (\<lambda>e. Storage (snd e)) (Components self') = [1, 3]"
    by simp
  with has hasnt dup r(1) show ?thesis by simp
qed

lemma foldl_Logistics_Move_trace:
  "foldl (\<lambda>w e. Logistics_Move (snd e) this w) w ls =
     w\<lparr> trace := trace w @
           map (\<lambda>e. OnMovedAt (unboxedComponent (snd e)) this)
             (filter (\<lambda>e. CMoveAwareComponent (Logistics_traits (snd e))) ls) \<rparr>"
proof (induction ls arbitrary: w)
  case Nil
  then show ?case by simp
next
  case (Cons e ls)
  then show ?case by (simp add: Logistics_Move_def emit_def)
qed

text \<open>
  What move construction does in general: one \<open>OnMovedAt\<close> per move-aware logistics entry,
  on the pointer the entry captured, and the source reset.
\<close>

lemma IComposable_move_ctor_effect:
  assumes "this \<noteq> other_addr"
  shows "IComposable_move_ctor this other_addr other w =
     (other,
      \<lparr> LastAddedComponentHash = 0, Components = [], ComponentLogistics = [],
        ComponentAliases = [], OnComponentAdded = False \<rparr>,
      w\<lparr> trace := trace w @
            map (\<lambda>e. OnMovedAt (unboxedComponent (snd e)) this)
              (filter (\<lambda>e. CMoveAwareComponent (Logistics_traits (snd e)))
                 (ComponentLogistics other)) \<rparr>)"
  using assms
  by (simp add: IComposable_move_ctor_def NotifyMoveComponents_def ResetComponents_def
                foldl_Logistics_Move_trace)

text \<open>
  An alias entry whose component is gone is dropped by the first lookup; the second
  lookup returns the same (empty) result and changes nothing.
\<close>

theorem GetComponents_twice_witness:
  "ComponentAliases stale_alias \<noteq> []
   \<and> GetComponents IComponentInterface stale_alias = (Inr [], IComposable_empty)
   \<and> GetComponents IComponentInterface IComposable_empty = (Inr [], IComposable_empty)"
proof -
  have 1: "GetComponents IComponentInterface stale_alias = (Inr [], IComposable_empty)"
    by (simp add: stale_alias_def fixture_defs eval_defs lookup_defs)
  from GetComponents_twice[of IComponentInterface stale_alias] 1
  have "GetComponents IComponentInterface IComposable_empty = (Inr [], IComposable_empty)"
    by (auto split: prod.splits)
  with 1 show ?thesis by (simp add: stale_alias_def)
qed

end
